theory Spec2Isabelle
  imports Complex_Main
begin

section \<open>The single-waypoint motion planner of package motionplan\<close>

text \<open>
  The development embeds the planner core of the motion planning library:
  \<^verbatim>\<open>getSolutions\<close>, \<^verbatim>\<open>checkInputs\<close>, \<^verbatim>\<open>checkPath\<close>, \<^verbatim>\<open>smoothPath\<close> and the waypoint
  loop \<^verbatim>\<open>motionPlanInternal\<close> with its public entry points.

  Conventions of the embedding.
  \<^item> A score, the \<^verbatim>\<open>float64\<close> that the planner compares and uses as a map key, is a
    \<open>float64\<close>: not a number, or a number (see below). A joint value, which the planner
    only passes on, is a \<open>real\<close>, and a \<^verbatim>\<open>[]frame.Input\<close> is a \<open>real list\<close>.
  \<^item> A Go \<^verbatim>\<open>int\<close> is an \<open>int\<close>; the code never computes with one beyond a comparison, an
    increment below a bound or a path index, so no wrap-around can be observed.
  \<^item> A pose is a value of an arbitrary type \<open>'p\<close>; an interface value that may be
    \<^verbatim>\<open>nil\<close> is an \<open>option\<close>.
  \<^item> A returned \<^verbatim>\<open>error\<close> is the \<open>Inl\<close> of a sum; a run-time panic is the error
    \<open>Panic\<close>.
\<close>

subsection \<open>Errors\<close>

datatype error =
    ErrNoDestinations
      \<comment> \<open>\<^verbatim>\<open>errors.New("no destinations passed to PlanWaypoints")\<close>\<close>
  | FrameMissingError string
      \<comment> \<open>\<^verbatim>\<open>frame.NewFrameMissingError(f.Name())\<close>\<close>
  | ErrDifferentLengths
      \<comment> \<open>\<^verbatim>\<open>errors.New("goals and motion configs had different lengths")\<close>\<close>
  | ErrNoDoF
      \<comment> \<open>\<^verbatim>\<open>errors.New("solver frame has no degrees of freedom, cannot perform inverse kinematics")\<close>\<close>
  | errIKSolve
      \<comment> \<open>the package's error value \<^verbatim>\<open>errIKSolve\<close>\<close>
  | genIKConstraintErr "string \<rightharpoonup> nat" nat
      \<comment> \<open>\<^verbatim>\<open>genIKConstraintErr(failures, constraintFailCnt)\<close>: the error built from the
         histogram and the total count\<close>
  | ctxErr
      \<comment> \<open>\<^verbatim>\<open>ctx.Err()\<close> of a context that is done\<close>
  | External string
      \<comment> \<open>an error made by a collaborator outside the planner\<close>
  | Panic
      \<comment> \<open>a run-time panic: nil dereference, index out of range, \<^verbatim>\<open>Intn\<close> of a
         non-positive bound\<close>

text \<open>
  Modelled from the spec: \<^verbatim>\<open>errIKSolve\<close> and \<^verbatim>\<open>genIKConstraintErr\<close> are declared in another
  file of the package. The spec has the first as the generic error that no IK solution
  was found, and the second as the constraint-failure summary that carries the histogram
  of the rejections by constraint name and the total failure count; the constructor
  keeps exactly the two arguments of the call.
\<close>

subsection \<open>Scores\<close>

text \<open>
  A \<^verbatim>\<open>float64\<close> score is not a number, minus infinity, a finite number or plus
  infinity; the finite numbers are reals, and the two zeros, which Go finds equal, are
  one. Go's \<^verbatim>\<open><\<close> is \<open>flt\<close> and Go's \<^verbatim>\<open>==\<close> is \<open>feq\<close>: both are false as soon as one side
  is \<open>NaN\<close>, so \<open>NaN\<close> is not equal to itself.
\<close>

datatype float64 = NaN | NegInf | Num real | PosInf

fun flt :: "float64 \<Rightarrow> float64 \<Rightarrow> bool" where
  "flt NaN b = False"
| "flt a NaN = False"
| "flt a NegInf = False"
| "flt NegInf b = True"
| "flt PosInf b = False"
| "flt a PosInf = True"
| "flt (Num x) (Num y) = (x < y)"

fun feq :: "float64 \<Rightarrow> float64 \<Rightarrow> bool" where
  "feq NaN b = False"
| "feq a NaN = False"
| "feq a b = (a = b)"

text \<open>
  The order in which \<^verbatim>\<open>sort.Float64s\<close> arranges a slice: ascending, with \<open>NaN\<close> before
  every other value. It is the order \<open>\<le>\<close> of the type; it is not Go's \<^verbatim>\<open><\<close>.
\<close>

fun fle :: "float64 \<Rightarrow> float64 \<Rightarrow> bool" where
  "fle NaN b = True"
| "fle a NaN = False"
| "fle NegInf b = True"
| "fle a NegInf = False"
| "fle a PosInf = True"
| "fle PosInf b = False"
| "fle (Num x) (Num y) = (x \<le> y)"

instantiation float64 :: linorder
begin

definition less_eq_float64 :: "float64 \<Rightarrow> float64 \<Rightarrow> bool" where
  "less_eq_float64 a b = fle a b"

definition less_float64 :: "float64 \<Rightarrow> float64 \<Rightarrow> bool" where
  "less_float64 a b = (fle a b \<and> \<not> fle b a)"

instance
proof
  fix x y z :: float64
  show "(x < y) = (x \<le> y \<and> \<not> y \<le> x)"
    by (simp add: less_eq_float64_def less_float64_def)
  show "x \<le> x"
    by (cases x) (simp_all add: less_eq_float64_def)
  show "x \<le> y \<Longrightarrow> y \<le> z \<Longrightarrow> x \<le> z"
    by (cases x; cases y; cases z) (simp_all add: less_eq_float64_def)
  show "x \<le> y \<Longrightarrow> y \<le> x \<Longrightarrow> x = y"
    by (cases x; cases y) (simp_all add: less_eq_float64_def)
  show "x \<le> y \<or> y \<le> x"
    by (cases x; cases y) (auto simp: less_eq_float64_def)
qed

end

text \<open>
  A Go map from scores to configurations is an association list. A write
  \<^verbatim>\<open>m[k] = v\<close> replaces the entry whose key is \<^verbatim>\<open>==\<close> to \<open>k\<close> and adds an entry when
  there is none, which is always so for the key \<open>NaN\<close>; a read \<^verbatim>\<open>m[k]\<close> gives the value
  of the entry whose key is \<^verbatim>\<open>==\<close> to \<open>k\<close> and the zero value, the nil slice, when
  there is none; \<^verbatim>\<open>len(m)\<close> is the length of the list.
\<close>

fun store :: "float64 \<Rightarrow> 'a \<Rightarrow> (float64 \<times> 'a) list \<Rightarrow> (float64 \<times> 'a) list" where
  "store k v [] = [(k, v)]"
| "store k v (p # ps) = (if feq (fst p) k then (k, v) # ps else p # store k v ps)"

fun fetch :: "(float64 \<times> 'a list) list \<Rightarrow> float64 \<Rightarrow> 'a list" where
  "fetch [] k = []"
| "fetch (p # ps) k = (if feq (fst p) k then snd p else fetch ps k)"

subsection \<open>Frames, constraint inputs, options\<close>

text \<open>
  Modelled from the spec: the types of this subsection are declared in other files. A
  frame exposes its name, its degrees of freedom (one limit each) and the forward
  transform from a configuration to a pose, which may fail. A constraint input has the
  five fields that \<^verbatim>\<open>getSolutions\<close> fills in this order.
\<close>

record 'p Frame =
  Name :: string
  DoF :: "(real \<times> real) list"
  Transform :: "real list \<Rightarrow> error + 'p"

record 'p ConstraintInput =
  StartPos :: "'p option"
  EndPos :: "'p option"
  StartInput :: "real list"
  EndInput :: "real list"
  Frame :: "'p Frame"

text \<open>
  The options bundle, with the fields that the planner reads. \<^verbatim>\<open>CheckConstraints\<close>
  returns the verdict, the score and the name of the failed constraint;
  \<^verbatim>\<open>CheckConstraintPath\<close> the verdict and the name. The metric of the bundle is only
  handed to the IK solver and is left out.
\<close>

record 'p plannerOptions =
  NumThreads :: int
  MaxSolutions :: int
  MinScore :: float64
  SmoothIter :: int
  Resolution :: real
  CheckConstraints :: "'p ConstraintInput \<Rightarrow> bool \<times> float64 \<times> string"
  CheckConstraintPath :: "'p ConstraintInput \<Rightarrow> real \<Rightarrow> bool \<times> string"

text \<open>
  The random source \<^verbatim>\<open>*rand.Rand\<close> is the stream of its raw draws: \<^verbatim>\<open>Intn(n)\<close> panics
  when \<open>n \<le> 0\<close>, and otherwise consumes one draw and returns it reduced into \<open>[0, n)\<close>.
\<close>

type_synonym rand = "nat \<Rightarrow> nat"

definition Intn :: "rand \<Rightarrow> int \<Rightarrow> error + (int \<times> rand)" where
  "Intn r n = (if n \<le> 0 then Inl Panic else Inr (int (r 0) mod n, \<lambda>k. r (Suc k)))"

text \<open>
  The planner. Its solver is seen through what the search loop observes of it (see
  \<open>poll\<close> below); the logger and the start time have no effect on any result.
\<close>

record 'p planner =
  frame :: "'p Frame"
  randseed :: rand
  planOpts :: "'p plannerOptions option"

text \<open>
  Package-level names that the planner uses and that are declared in other files of the
  package: they are parameters of the embedding.
\<close>

record 'p package =
  fixOvIncrement :: "'p \<Rightarrow> 'p \<Rightarrow> 'p"
  defaultSolutionsToSeed :: int
  InterpolateInputs :: "real list \<Rightarrow> real list \<Rightarrow> real \<Rightarrow> real list"
  CreateCombinedIKSolver :: "'p Frame \<Rightarrow> int \<Rightarrow> error option"

text \<open>
  \<^verbatim>\<open>newPlanner\<close> reads \<^verbatim>\<open>opt.NumThreads\<close>, so it panics on nil options; of
  \<^verbatim>\<open>CreateCombinedIKSolver\<close> only the error matters here, the solver being seen through
  the observations of the search loop.
\<close>

definition newPlanner ::
  "'p package \<Rightarrow> 'p Frame \<Rightarrow> rand \<Rightarrow> 'p plannerOptions option \<Rightarrow> error + 'p planner" where
  "newPlanner pk fr seed opt =
     (case opt of
        None \<Rightarrow> Inl Panic
      | Some opts \<Rightarrow>
          (case CreateCombinedIKSolver pk fr (NumThreads opts) of
             Some err \<Rightarrow> Inl err
           | None \<Rightarrow> Inr \<lparr>frame = fr, randseed = seed, planOpts = opt\<rparr>))"

subsection \<open>Cost nodes and path nodes\<close>

text \<open>
  Modelled from the spec: \<^verbatim>\<open>costNode\<close>, \<^verbatim>\<open>newCostNode\<close> and \<^verbatim>\<open>basicNode\<close> are declared in
  another file of the package. The spec has a cost node as the immutable pair of a
  configuration and its numeric cost, and the canonical node as holding exactly one
  configuration, read by \<^verbatim>\<open>Q()\<close>.
\<close>

record costNode =
  q :: "real list"
  cost :: float64

definition newCostNode :: "real list \<Rightarrow> float64 \<Rightarrow> costNode" where
  "newCostNode qs c = \<lparr>q = qs, cost = c\<rparr>"

datatype node = basicNode (Q: "real list")

subsection \<open>Failing steps\<close>

text \<open>
  Sequencing of steps that may fail: the first error ends the computation, as a returned
  error or a panic does.
\<close>

definition then_do :: "error + 'a \<Rightarrow> ('a \<Rightarrow> error + 'b) \<Rightarrow> error + 'b" where
  "then_do m f = (case m of Inl err \<Rightarrow> Inl err | Inr x \<Rightarrow> f x)"

text \<open>A slice read \<^verbatim>\<open>xs[i]\<close>: out of range it panics.\<close>

definition index :: "'a list \<Rightarrow> int \<Rightarrow> error + 'a" where
  "index xs i = (if 0 \<le> i \<and> i < int (length xs) then Inr (xs ! nat i) else Inl Panic)"

subsection \<open>checkInputs and checkPath\<close>

definition checkInputs :: "'p planner \<Rightarrow> real list \<Rightarrow> error + bool" where
  "checkInputs mp inputs =
     (case Transform (frame mp) inputs of
        Inl err \<Rightarrow> Inr False
      | Inr position \<Rightarrow>
          (case planOpts mp of
             None \<Rightarrow> Inl Panic
           | Some opts \<Rightarrow>
               (let (ok, _, _) = CheckConstraints opts
                      \<lparr>StartPos = Some position, EndPos = Some position,
                       StartInput = inputs, EndInput = inputs, Frame = frame mp\<rparr>
                in Inr ok)))"

definition checkPath :: "'p planner \<Rightarrow> real list \<Rightarrow> real list \<Rightarrow> error + bool" where
  "checkPath mp seedInputs target =
     (case planOpts mp of
        None \<Rightarrow> Inl Panic
      | Some opts \<Rightarrow>
          (let (ok, _) = CheckConstraintPath opts
                 \<lparr>StartPos = None, EndPos = None,
                  StartInput = seedInputs, EndInput = target, Frame = frame mp\<rparr>
                 (Resolution opts)
           in Inr ok))"

subsection \<open>smoothPath\<close>

definition waypoints :: "real list" where
  "waypoints = [0.25, 0.5, 0.75]"

text \<open>
  The draws of one turn of the smoothing loop: the two edge indices and the two
  interpolated way points, with every slice read and every \<^verbatim>\<open>Intn\<close> in the order of the
  code.
\<close>

definition pick_edges ::
  "'p package \<Rightarrow> rand \<Rightarrow> node list \<Rightarrow> error + (int \<times> int \<times> real list \<times> real list \<times> rand)" where
  "pick_edges pk r path =
     then_do (Intn r (int (length path) - 2)) (\<lambda>(firstEdge, r1).
     then_do (Intn r1 ((int (length path) - 2) - firstEdge)) (\<lambda>(d, r2).
     let secondEdge = firstEdge + 1 + d in
     then_do (index path firstEdge) (\<lambda>a.
     then_do (index path (firstEdge + 1)) (\<lambda>b.
     then_do (Intn r2 3) (\<lambda>(k1, r3).
     then_do (index waypoints k1) (\<lambda>by1.
     let wayPoint1 = InterpolateInputs pk (Q a) (Q b) by1 in
     then_do (index path secondEdge) (\<lambda>c.
     then_do (index path (secondEdge + 1)) (\<lambda>d.
     then_do (Intn r3 3) (\<lambda>(k2, r4).
     then_do (index waypoints k2) (\<lambda>by2.
     let wayPoint2 = InterpolateInputs pk (Q c) (Q d) by2 in
     Inr (firstEdge, secondEdge, wayPoint1, wayPoint2, r4)))))))))))"

text \<open>
  The new path of an accepted shortcut: \<^verbatim>\<open>path[:firstEdge+1]\<close>, the two new nodes,
  \<^verbatim>\<open>path[secondEdge+1:]\<close>. Both slice bounds are in range whenever the reads
  \<^verbatim>\<open>path[firstEdge]\<close> and \<^verbatim>\<open>path[secondEdge+1]\<close> before them were.
\<close>

definition splice :: "node list \<Rightarrow> int \<Rightarrow> int \<Rightarrow> real list \<Rightarrow> real list \<Rightarrow> node list" where
  "splice path firstEdge secondEdge wayPoint1 wayPoint2 =
     take (nat (firstEdge + 1)) path @ [basicNode wayPoint1, basicNode wayPoint2]
       @ drop (nat (secondEdge + 1)) path"

text \<open>The body of the loop after the check of the context.\<close>

definition shortcut ::
  "'p package \<Rightarrow> 'p planner \<Rightarrow> rand \<Rightarrow> node list \<Rightarrow> error + (node list \<times> rand)" where
  "shortcut pk mp r path =
     then_do (pick_edges pk r path) (\<lambda>(firstEdge, secondEdge, wayPoint1, wayPoint2, r').
     then_do (checkPath mp wayPoint1 wayPoint2) (\<lambda>ok.
       if ok then Inr (splice path firstEdge secondEdge wayPoint1 wayPoint2, r')
       else Inr (path, r')))"

text \<open>
  The loop \<^verbatim>\<open>for i := 0; i < mp.planOpts.SmoothIter; i++\<close>. \<open>ctxDone i\<close> tells whether
  turn \<open>i\<close> finds the context done. The result carries the random source as the loop
  leaves it.
\<close>

function smooth_loop ::
  "'p package \<Rightarrow> 'p planner \<Rightarrow> (int \<Rightarrow> bool) \<Rightarrow> int \<Rightarrow> int \<Rightarrow> rand \<Rightarrow> node list
     \<Rightarrow> error + (node list \<times> rand)" where
  "smooth_loop pk mp ctxDone smoothIter i r path =
     (if i < smoothIter then
        (if ctxDone i then Inr (path, r)
         else case shortcut pk mp r path of
                Inl err \<Rightarrow> Inl err
              | Inr (path', r') \<Rightarrow> smooth_loop pk mp ctxDone smoothIter (i + 1) r' path')
      else Inr (path, r))"
  by pat_completeness auto
termination
  by (relation "measure (\<lambda>(pk, mp, ctxDone, smoothIter, i, r, path). nat (smoothIter - i))") auto

declare smooth_loop.simps [simp del]

definition smoothPath ::
  "'p package \<Rightarrow> 'p planner \<Rightarrow> (int \<Rightarrow> bool) \<Rightarrow> node list \<Rightarrow> error + (node list \<times> rand)" where
  "smoothPath pk mp ctxDone path =
     (case planOpts mp of
        None \<Rightarrow> Inr (path, randseed mp)
      | Some opts \<Rightarrow>
          if length path \<le> 2 then Inr (path, randseed mp)
          else smooth_loop pk mp ctxDone (SmoothIter opts) 0 (randseed mp) path)"

subsection \<open>getSolutions\<close>

text \<open>
  What one turn of the loop labelled \<^verbatim>\<open>IK\<close> observes in its three \<^verbatim>\<open>select\<close>
  statements, in the order of the code: the caller's context is done; else a candidate is
  received from \<^verbatim>\<open>solutionGen\<close>; else the solver's completion is received from
  \<^verbatim>\<open>ikErr\<close>; else nothing is ready and the loop turns again.
\<close>

datatype poll = CtxDone | Candidate "real list" | SolverDone | Idle

text \<open>
  The environment of one call: the observations of the successive turns of the loop, and
  whether the solver task, once its derived context is cancelled, ends and so releases
  the deferred \<^verbatim>\<open><-ikErr\<close> (a call whose deferred receive blocks for ever never returns).
\<close>

record ik_env =
  polls :: "poll list"
  solver_ends :: bool

record ik_state =
  solutions :: "(float64 \<times> real list) list"
  failures :: "string \<rightharpoonup> nat"
  constraintFailCnt :: nat

text \<open>\<^verbatim>\<open>failures[failName]++\<close> on a Go map: a missing key reads as zero.\<close>

definition incr :: "(string \<rightharpoonup> nat) \<Rightarrow> string \<Rightarrow> (string \<rightharpoonup> nat)" where
  "incr m k = m(k \<mapsto> (case m k of None \<Rightarrow> 0 | Some c \<Rightarrow> c) + 1)"

datatype step_result = Break ik_state | Continue ik_state

text \<open>
  The body of \<^verbatim>\<open>case step := <-solutionGen\<close>. The early exit empties the map and writes
  the one entry; \<^verbatim>\<open>MinScore > 0\<close> is \<open>flt (Num 0) MinScore\<close>.
\<close>

definition on_candidate ::
  "'p plannerOptions \<Rightarrow> 'p Frame \<Rightarrow> 'p \<Rightarrow> 'p \<Rightarrow> real list \<Rightarrow> int \<Rightarrow> real list \<Rightarrow> ik_state
     \<Rightarrow> step_result" where
  "on_candidate opts fr seedPos goalPos seed nSolutions step st =
     (let (cPass, cScore, failName) = CheckConstraints opts
            \<lparr>StartPos = Some seedPos, EndPos = Some goalPos,
             StartInput = seed, EndInput = step, Frame = fr\<rparr>
      in if cPass then
           (let (endPass, _, failName) = CheckConstraints opts
                  \<lparr>StartPos = Some goalPos, EndPos = Some goalPos,
                   StartInput = step, EndInput = step, Frame = fr\<rparr>
            in if endPass then
                 (if flt cScore (MinScore opts) \<and> flt (Num 0) (MinScore opts)
                  then Break (st\<lparr>solutions := store cScore step []\<rparr>)
                  else
                    (let st' = st\<lparr>solutions := store cScore step (solutions st)\<rparr>
                     in if int (length (solutions st')) \<ge> nSolutions
                        then Break st' else Continue st'))
               else Continue (st\<lparr>constraintFailCnt := constraintFailCnt st + 1,
                                 failures := incr (failures st) failName\<rparr>))
         else Continue (st\<lparr>constraintFailCnt := constraintFailCnt st + 1,
                           failures := incr (failures st) failName\<rparr>))"

text \<open>
  How the loop is left: by \<^verbatim>\<open>return nil, ctx.Err()\<close>, by a \<^verbatim>\<open>break IK\<close> after a candidate,
  or by the \<^verbatim>\<open>break IK\<close> on the solver's completion.
\<close>

datatype loop_exit = Cancelled | Stopped ik_state | Drained ik_state

text \<open>
  The loop over the observed turns. \<open>None\<close>: the loop is still turning when the
  observations end.
\<close>

fun IK_loop ::
  "'p plannerOptions \<Rightarrow> 'p Frame \<Rightarrow> 'p \<Rightarrow> 'p \<Rightarrow> real list \<Rightarrow> int \<Rightarrow> poll list \<Rightarrow> ik_state
     \<Rightarrow> loop_exit option" where
  "IK_loop opts fr seedPos goalPos seed n [] st = None"
| "IK_loop opts fr seedPos goalPos seed n (CtxDone # ps) st = Some Cancelled"
| "IK_loop opts fr seedPos goalPos seed n (Candidate step # ps) st =
     (case on_candidate opts fr seedPos goalPos seed n step st of
        Break st' \<Rightarrow> Some (Stopped st')
      | Continue st' \<Rightarrow> IK_loop opts fr seedPos goalPos seed n ps st')"
| "IK_loop opts fr seedPos goalPos seed n (SolverDone # ps) st = Some (Drained st)"
| "IK_loop opts fr seedPos goalPos seed n (Idle # ps) st =
     IK_loop opts fr seedPos goalPos seed n ps st"

text \<open>
  After the loop: the two errors of an empty map, else the keys sorted by
  \<^verbatim>\<open>sort.Float64s\<close> and a cost node for each, its configuration read from the map.
\<close>

definition order_solutions :: "ik_state \<Rightarrow> error + costNode list" where
  "order_solutions st =
     (if length (solutions st) = 0 then
        (if constraintFailCnt st = 0 then Inl errIKSolve
         else Inl (genIKConstraintErr (failures st) (constraintFailCnt st)))
      else
        (let keys = sort (map fst (solutions st))
         in Inr (map (\<lambda>key. newCostNode (fetch (solutions st) key) key) keys)))"

text \<open>
  The call. The options are read first, then the seed is transformed, and only then is
  the solver started and the deferred receive registered: an error of the transform
  returns at once. The solver's draw from the random source has no effect on the result.
  \<open>None\<close>: the call does not return, because the loop is still turning when the
  observations end or because the deferred receive blocks for ever.
\<close>

definition getSolutions ::
  "'p package \<Rightarrow> 'p planner \<Rightarrow> ik_env \<Rightarrow> 'p \<Rightarrow> real list \<Rightarrow> (error + costNode list) option" where
  "getSolutions pk mp env goal seed =
     (case planOpts mp of
        None \<Rightarrow> Some (Inl Panic)
      | Some opts \<Rightarrow>
          (let nSolutions = (if MaxSolutions opts = 0 then defaultSolutionsToSeed pk
                             else MaxSolutions opts)
           in case Transform (frame mp) seed of
                Inl err \<Rightarrow> Some (Inl err)
              | Inr seedPos \<Rightarrow>
                  (let goalPos = fixOvIncrement pk goal seedPos
                   in case IK_loop opts (frame mp) seedPos goalPos seed nSolutions (polls env)
                             \<lparr>solutions = [], failures = Map.empty, constraintFailCnt = 0\<rparr> of
                        None \<Rightarrow> None
                      | Some Cancelled \<Rightarrow>
                          (if solver_ends env then Some (Inl ctxErr) else None)
                      | Some (Stopped st) \<Rightarrow>
                          (if solver_ends env then Some (order_solutions st) else None)
                      | Some (Drained st) \<Rightarrow> Some (order_solutions st))))"

subsection \<open>motionPlanInternal and the public entry points\<close>

type_synonym seedMap = "string \<rightharpoonup> real list"

type_synonym 'v config = "string \<rightharpoonup> 'v"

record 'p PoseInFrame =
  Parent :: string
  Pose :: 'p

text \<open>The frame system: \<^verbatim>\<open>fs.Frame(name)\<close>, nil for a missing frame, and the traceback.\<close>

record 'p frameSystem =
  fsFrame :: "string \<Rightarrow> 'p Frame option"
  TracebackFrame :: "'p Frame \<Rightarrow> error + 'p Frame list"

text \<open>A solver frame is a frame with the two conversions between maps and slices.\<close>

record 'p solverFrame = "'p Frame" +
  mapToSlice :: "seedMap \<Rightarrow> error + real list"
  sliceToMap :: "real list \<Rightarrow> seedMap"

record ('p, 'w, 'v) planManager =
  PlanSingleWaypoint ::
    "seedMap \<Rightarrow> 'p \<Rightarrow> 'w option \<Rightarrow> 'v config \<Rightarrow> error + real list list"

text \<open>
  The functions of other files and packages that the waypoint loop and the entry points
  call. \<open>singleFrameSystem f\<close> stands for \<^verbatim>\<open>frame.NewEmptySimpleFrameSystem("")\<close> followed
  by \<^verbatim>\<open>fs.AddFrame(f, fs.World())\<close>: the frame system, or the error of \<^verbatim>\<open>AddFrame\<close>.
\<close>

record ('p, 'w, 'v) collaborators =
  newSolverFrame ::
    "'p frameSystem \<Rightarrow> 'p Frame list \<Rightarrow> string \<Rightarrow> seedMap \<Rightarrow> error + 'p solverFrame"
  WorldStateToProtobuf :: "'w \<Rightarrow> error + unit"
  newPlanManager ::
    "'p solverFrame \<Rightarrow> 'p frameSystem \<Rightarrow> int \<Rightarrow> error + ('p, 'w, 'v) planManager"
  singleFrameSystem :: "'p Frame \<Rightarrow> error + 'p frameSystem"
  FrameStepsFromRobotPath :: "string \<Rightarrow> seedMap list \<Rightarrow> error + real list list"

text \<open>
  Inverse kinematics is reached through the plan manager only. Each planning function
  returns, beside its result, the calls it made to \<^verbatim>\<open>newPlanManager\<close> and to
  \<^verbatim>\<open>PlanSingleWaypoint\<close>, in order, with the goal index and the motion config passed.
\<close>

datatype 'v call = NewPlanManager int | PlanSingleWaypointCall int "'v config"

text \<open>The choice of one motion config per goal (the \<^verbatim>\<open>switch\<close> on the lengths).\<close>

definition resolve_opts :: "'g list \<Rightarrow> 'v config list \<Rightarrow> error + 'v config list" where
  "resolve_opts goals motionConfigs =
     (if length motionConfigs \<noteq> length goals then
        (if length motionConfigs = 0 then Inr (map (\<lambda>_. Map.empty) goals)
         else if length motionConfigs = 1 then Inr (map (\<lambda>_. motionConfigs ! 0) goals)
         else Inl ErrDifferentLengths)
      else Inr motionConfigs)"

text \<open>
  The loop \<^verbatim>\<open>for i, goal := range goals\<close>. The inner loop over \<^verbatim>\<open>resultSlices\<close> appends the
  map of every slice to \<^verbatim>\<open>steps\<close> and makes the map of the last one the next seed map.
\<close>

fun plan_goals ::
  "('p, 'w, 'v) collaborators \<Rightarrow> 'p frameSystem \<Rightarrow> 'w option \<Rightarrow> 'p Frame list
     \<Rightarrow> 'v config list \<Rightarrow> int \<Rightarrow> 'p PoseInFrame list \<Rightarrow> seedMap \<Rightarrow> seedMap list
     \<Rightarrow> 'v call list \<Rightarrow> 'v call list \<times> (error + seedMap list)" where
  "plan_goals c fs worldState solveFrameList opts i [] seedMap steps calls =
     (calls, Inr steps)"
| "plan_goals c fs worldState solveFrameList opts i (goal # goals) seedMap steps calls =
     (case newSolverFrame c fs solveFrameList (Parent goal) seedMap of
        Inl err \<Rightarrow> (calls, Inl err)
      | Inr sf \<Rightarrow>
          if length (DoF sf) = 0 then (calls, Inl ErrNoDoF)
          else
            (case mapToSlice sf seedMap of
               Inl err \<Rightarrow> (calls, Inl err)
             | Inr seed \<Rightarrow>
            (case Transform sf seed of
               Inl err \<Rightarrow> (calls, Inl err)
             | Inr startPose \<Rightarrow>
            (case (case worldState of None \<Rightarrow> Inr () | Some ws \<Rightarrow> WorldStateToProtobuf c ws) of
               Inl err \<Rightarrow> (calls, Inl err)
             | Inr wsPb \<Rightarrow>
            (case index opts i of
               Inl err \<Rightarrow> (calls, Inl err)
             | Inr opt \<Rightarrow>
            (case newPlanManager c sf fs i of
               Inl err \<Rightarrow> (calls @ [NewPlanManager i], Inl err)
             | Inr sfPlanner \<Rightarrow>
            (case PlanSingleWaypoint sfPlanner seedMap (Pose goal) worldState opt of
               Inl err \<Rightarrow> (calls @ [NewPlanManager i, PlanSingleWaypointCall i opt], Inl err)
             | Inr resultSlices \<Rightarrow>
                 plan_goals c fs worldState solveFrameList opts (i + 1) goals
                   (if resultSlices = [] then seedMap else sliceToMap sf (last resultSlices))
                   (steps @ map (sliceToMap sf) resultSlices)
                   (calls @ [NewPlanManager i, PlanSingleWaypointCall i opt]))))))))"

definition motionPlanInternal ::
  "('p, 'w, 'v) collaborators \<Rightarrow> 'p PoseInFrame list \<Rightarrow> 'p Frame \<Rightarrow> seedMap \<Rightarrow> 'p frameSystem
     \<Rightarrow> 'w option \<Rightarrow> 'v config list \<Rightarrow> 'v call list \<times> (error + seedMap list)" where
  "motionPlanInternal c goals f seedMap fs worldState motionConfigs =
     (if length goals = 0 then ([], Inl ErrNoDestinations)
      else
        (case fsFrame fs (Name f) of
           None \<Rightarrow> ([], Inl (FrameMissingError (Name f)))
         | Some solveFrame \<Rightarrow>
        (case TracebackFrame fs solveFrame of
           Inl err \<Rightarrow> ([], Inl err)
         | Inr solveFrameList \<Rightarrow>
        (case resolve_opts goals motionConfigs of
           Inl err \<Rightarrow> ([], Inl err)
         | Inr opts \<Rightarrow>
             plan_goals c fs worldState solveFrameList opts 0 goals seedMap [] []))))"

definition PlanMotion ::
  "('p, 'w, 'v) collaborators \<Rightarrow> 'p PoseInFrame \<Rightarrow> 'p Frame \<Rightarrow> seedMap \<Rightarrow> 'p frameSystem
     \<Rightarrow> 'w option \<Rightarrow> 'v config \<Rightarrow> 'v call list \<times> (error + seedMap list)" where
  "PlanMotion c dst f seedMap fs worldState planningOpts =
     motionPlanInternal c [dst] f seedMap fs worldState [planningOpts]"

definition PlanWaypoints ::
  "('p, 'w, 'v) collaborators \<Rightarrow> 'p PoseInFrame list \<Rightarrow> 'p Frame \<Rightarrow> seedMap \<Rightarrow> 'p frameSystem
     \<Rightarrow> 'w option \<Rightarrow> 'v config list \<Rightarrow> 'v call list \<times> (error + seedMap list)" where
  "PlanWaypoints c goals f seedMap fs worldState motionConfigs =
     motionPlanInternal c goals f seedMap fs worldState motionConfigs"

text \<open>The name \<^verbatim>\<open>frame.World\<close> of the world frame.\<close>

definition World :: string where
  "World = ''world''"

definition PlanFrameMotion ::
  "('p, 'w, 'v) collaborators \<Rightarrow> 'p \<Rightarrow> 'p Frame \<Rightarrow> real list \<Rightarrow> 'v config
     \<Rightarrow> 'v call list \<times> (error + real list list)" where
  "PlanFrameMotion c dst f seed planningOpts =
     (case singleFrameSystem c f of
        Inl err \<Rightarrow> ([], Inl err)
      | Inr fs \<Rightarrow>
          (let destination = \<lparr>Parent = World, Pose = dst\<rparr>;
               seedMap = [Name f \<mapsto> seed]
           in case motionPlanInternal c [destination] f seedMap fs None [planningOpts] of
                (calls, Inl err) \<Rightarrow> (calls, Inl err)
              | (calls, Inr solutionMap) \<Rightarrow>
                  (calls, FrameStepsFromRobotPath c (Name f) solutionMap)))"

section \<open>Notions used to state the properties\<close>

text \<open>
  The name under which the search loop counts a candidate as failed, \<open>None\<close> for a
  candidate that passes both checks: the name of the first check when that fails, else
  the name of the second check when that fails.
\<close>

definition rejection ::
  "'p plannerOptions \<Rightarrow> 'p Frame \<Rightarrow> 'p \<Rightarrow> 'p \<Rightarrow> real list \<Rightarrow> real list \<Rightarrow> string option" where
  "rejection opts fr seedPos goalPos seed step =
     (let (cPass, cScore, failName) = CheckConstraints opts
            \<lparr>StartPos = Some seedPos, EndPos = Some goalPos,
             StartInput = seed, EndInput = step, Frame = fr\<rparr>
      in if cPass then
           (let (endPass, _, failName) = CheckConstraints opts
                  \<lparr>StartPos = Some goalPos, EndPos = Some goalPos,
                   StartInput = step, EndInput = step, Frame = fr\<rparr>
            in if endPass then None else Some failName)
         else Some failName)"

text \<open>
  The candidates among the observations before the first one that ends the loop from
  outside (the context done, the solver's completion).
\<close>

fun received :: "poll list \<Rightarrow> real list list" where
  "received [] = []"
| "received (Candidate step # ps) = step # received ps"
| "received (Idle # ps) = received ps"
| "received (CtxDone # ps) = []"
| "received (SolverDone # ps) = []"

text \<open>
  The histogram of a list of names: how often each occurs, no entry for a name that
  does not occur.
\<close>

definition tally :: "string list \<Rightarrow> (string \<rightharpoonup> nat)" where
  "tally names = (\<lambda>name. if count_list names name = 0 then None
                          else Some (count_list names name))"

text \<open>The keys of the map that are numbers are pairwise different.\<close>

definition keys_ok :: "(float64 \<times> 'a) list \<Rightarrow> bool" where
  "keys_ok al = distinct (filter (\<lambda>k. k \<noteq> NaN) (map fst al))"

text \<open>The cost nodes that a result holds: none when the result is an error.\<close>

definition collected :: "error + costNode list \<Rightarrow> costNode list" where
  "collected r = (case r of Inl e \<Rightarrow> [] | Inr sols \<Rightarrow> sols)"

text \<open>The motion configs passed to \<^verbatim>\<open>PlanSingleWaypoint\<close>, in the order of the calls.\<close>

definition configs_used :: "'v call list \<Rightarrow> 'v config list" where
  "configs_used calls =
     concat (map (\<lambda>cl. case cl of NewPlanManager i \<Rightarrow> [] | PlanSingleWaypointCall i opt \<Rightarrow> [opt])
               calls)"

section \<open>A concrete planner\<close>

text \<open>
  A frame of two joints whose pose is the number of its inputs; constraints that, as the
  constraints of the package do, judge the start state of their input: a joint limit on
  the end inputs, named \<open>limit\<close>, and a start state of negative sum, named \<open>negative\<close>;
  the score is the squared norm of the end inputs, and not a number when the end inputs
  sum to zero.
\<close>

definition ex_frame :: "nat Frame" where
  "ex_frame = \<lparr>Name = ''arm'', DoF = [(-10, 10), (-10, 10)],
                Transform = (\<lambda>inputs. if length inputs = 2 then Inr (length inputs)
                                        else Inl (External ''wrong number of inputs''))\<rparr>"

definition ex_opts :: "int \<Rightarrow> real \<Rightarrow> nat plannerOptions" where
  "ex_opts maxSolutions minScore =
     \<lparr>NumThreads = 1, MaxSolutions = maxSolutions, MinScore = Num minScore, SmoothIter = 1,
      Resolution = 1,
      CheckConstraints = (\<lambda>ci.
         if list_ex (\<lambda>x. 10 < \<bar>x\<bar>) (EndInput ci) then (False, Num 0, ''limit'')
         else if sum_list (StartInput ci) < 0 then (False, Num 0, ''negative'')
         else if sum_list (EndInput ci) = 0 then (True, NaN, [])
         else (True, Num (sum_list (map (\<lambda>x. x * x) (EndInput ci))), [])),
      CheckConstraintPath = (\<lambda>ci r.
         if list_ex (\<lambda>x. x < 0) (StartInput ci @ EndInput ci) then (False, ''negative'')
         else (True, []))\<rparr>"

definition ex_rand :: rand where
  "ex_rand = (\<lambda>k. if k = 0 then 1 else if k = 1 then 2 else 0)"

definition ex_planner :: "int \<Rightarrow> real \<Rightarrow> nat planner" where
  "ex_planner maxSolutions minScore =
     \<lparr>frame = ex_frame, randseed = ex_rand, planOpts = Some (ex_opts maxSolutions minScore)\<rparr>"

definition ex_package :: "nat package" where
  "ex_package = \<lparr>fixOvIncrement = (\<lambda>goal seedPos. goal), defaultSolutionsToSeed = 50,
     InterpolateInputs = (\<lambda>from to by. map2 (\<lambda>a b. a + (b - a) * by) from to),
     CreateCombinedIKSolver = (\<lambda>fr numThreads. None)\<rparr>"

definition ex_path :: "node list" where
  "ex_path = [basicNode [0], basicNode [1], basicNode [2], basicNode [3], basicNode [4],
              basicNode [5]]"

text \<open>
  A frame system of the arm and a base without joints; a solver frame made of the
  frames of the traceback; a plan manager that plans one step from the seed.
\<close>

definition ex_static :: "nat Frame" where
  "ex_static = \<lparr>Name = ''base'', DoF = [], Transform = (\<lambda>inputs. Inr 0)\<rparr>"

definition ex_fs :: "nat frameSystem" where
  "ex_fs = \<lparr>fsFrame = (\<lambda>name. if name = ''arm'' then Some ex_frame
                              else if name = ''base'' then Some ex_static else None),
            TracebackFrame = (\<lambda>f. Inr [f])\<rparr>"

definition ex_sf :: "nat Frame list \<Rightarrow> nat solverFrame" where
  "ex_sf fl = \<lparr>Name = ''solver'', DoF = concat (map DoF fl),
               Transform = (\<lambda>inputs. Inr (length inputs)),
               mapToSlice = (\<lambda>m. case m ''arm'' of None \<Rightarrow> Inl (External ''no inputs'')
                                   | Some qs \<Rightarrow> Inr qs),
               sliceToMap = (\<lambda>qs. [''arm'' \<mapsto> qs])\<rparr>"

definition ex_collab :: "(nat, unit, nat) collaborators" where
  "ex_collab =
     \<lparr>newSolverFrame = (\<lambda>fs fl parent seedMap. Inr (ex_sf fl)),
      WorldStateToProtobuf = (\<lambda>ws. Inr ()),
      newPlanManager = (\<lambda>sf fs i.
         Inr \<lparr>PlanSingleWaypoint = (\<lambda>seedMap goal ws opt.
                 case seedMap ''arm'' of None \<Rightarrow> Inl (External ''no seed'')
                 | Some qs \<Rightarrow> Inr [qs, map (\<lambda>x. x + 1) qs])\<rparr>),
      singleFrameSystem = (\<lambda>f.
         Inr \<lparr>fsFrame = (\<lambda>name. if name = Name f then Some f else None),
              TracebackFrame = (\<lambda>f. Inr [f])\<rparr>),
      FrameStepsFromRobotPath = (\<lambda>name steps.
         Inr (map (\<lambda>m. case m name of None \<Rightarrow> [] | Some qs \<Rightarrow> qs) steps))\<rparr>"

definition ex_goal :: "nat PoseInFrame" where
  "ex_goal = \<lparr>Parent = World, Pose = 2\<rparr>"

lemmas ex_defs = ex_frame_def ex_opts_def ex_planner_def ex_package_def ex_rand_def
  ex_path_def

lemmas gs_eval = getSolutions_def on_candidate_def order_solutions_def newCostNode_def ex_defs

lemmas sp_eval = smoothPath_def smooth_loop.simps shortcut_def pick_edges_def then_do_def
  Intn_def index_def waypoints_def splice_def checkPath_def ex_defs

lemmas mp_eval = motionPlanInternal_def resolve_opts_def PlanFrameMotion_def index_def
  ex_collab_def ex_fs_def ex_sf_def ex_static_def ex_frame_def ex_goal_def World_def

section \<open>Properties of getSolutions\<close>

subsection \<open>Scores and the map\<close>

lemma le_float64_simps [simp]:
  "NaN \<le> b" "Num x \<le> NaN \<longleftrightarrow> False" "Num x \<le> Num y \<longleftrightarrow> x \<le> y"
  "NegInf \<le> Num y" "Num x \<le> NegInf \<longleftrightarrow> False" "Num x \<le> PosInf" "PosInf \<le> Num y \<longleftrightarrow> False"
  by (cases b) (simp_all add: less_eq_float64_def)

lemma less_float64_simps [simp]:
  "a < NaN \<longleftrightarrow> False" "NaN < Num y" "Num x < Num y \<longleftrightarrow> x < y"
  "NegInf < Num y" "Num x < NegInf \<longleftrightarrow> False" "Num x < PosInf" "PosInf < Num y \<longleftrightarrow> False"
  by (cases a) (auto simp: less_float64_def)

lemma flt_iff: "flt a b \<longleftrightarrow> a \<noteq> NaN \<and> a < b"
  by (cases a; cases b) (auto simp: less_float64_def)

lemma feq_iff: "feq a b \<longleftrightarrow> a = b \<and> a \<noteq> NaN"
  by (cases a; cases b) auto

lemma length_store_le: "length (store k v al) \<le> Suc (length al)"
  by (induction al) auto

lemma store_not_Nil [simp]: "store k v al \<noteq> []"
  by (cases al) auto

lemma keys_store:
  "map fst (store k v al) =
     (if k \<noteq> NaN \<and> k \<in> set (map fst al) then map fst al else map fst al @ [k])"
  by (induction al) (auto simp: feq_iff)

lemma fetch_store: "fetch (store k v al) k' = (if feq k k' then v else fetch al k')"
  by (induction al) (auto simp: feq_iff)

lemma keys_ok_store: "keys_ok al \<Longrightarrow> keys_ok (store k v al)"
  by (auto simp: keys_ok_def keys_store)

lemma filter_eq_distinct: "distinct xs \<Longrightarrow> c \<in> set xs \<Longrightarrow> filter (\<lambda>k. k = c) xs = [c]"
  by (induction xs) (auto simp: filter_empty_conv)

text \<open>A sorted list is its elements below, at and above any bound.\<close>

lemma sorted_split:
  fixes c :: "'a :: linorder"
  shows "sorted xs \<Longrightarrow>
     xs = filter (\<lambda>x. x < c) xs @ filter (\<lambda>x. x = c) xs @ filter (\<lambda>x. c < x) xs"
proof (induction xs)
  case Nil
  then show ?case by simp
next
  case (Cons x xs)
  then have ih: "xs = filter (\<lambda>x. x < c) xs @ filter (\<lambda>x. x = c) xs @ filter (\<lambda>x. c < x) xs"
    and le: "\<forall>y\<in>set xs. x \<le> y"
    by auto
  consider "x < c" | "x = c" | "c < x" by (rule linorder_cases)
  then show ?case
  proof cases
    case 1
    then show ?thesis using ih by auto
  next
    case 2
    then have "filter (\<lambda>x. x < c) xs = []" using le by (auto simp: filter_empty_conv)
    then show ?thesis using 2 ih by auto
  next
    case 3
    then have "filter (\<lambda>x. x < c) xs = []" "filter (\<lambda>x. x = c) xs = []"
      using le by (auto simp: filter_empty_conv)
    then show ?thesis using 3 ih by auto
  qed
qed

text \<open>
  The ordered result after a write under a key other than \<open>NaN\<close>: the nodes of smaller
  cost as they were, the new node, the nodes of greater cost as they were.
\<close>

lemma order_after_store:
  assumes "keys_ok al" and "c \<noteq> NaN"
  shows "map (\<lambda>k. newCostNode (fetch (store c b al) k) k)
           (sort (map fst (store c b al)))
         = filter (\<lambda>n. cost n < c)
             (map (\<lambda>k. newCostNode (fetch al k) k) (sort (map fst al)))
           @ [newCostNode b c]
           @ filter (\<lambda>n. c < cost n)
             (map (\<lambda>k. newCostNode (fetch al k) k) (sort (map fst al)))"
proof -
  let ?c = "c"
  note nn = assms(2)
  let ?K1 = "map fst al"
  let ?al2 = "store ?c b al"
  let ?K2 = "map fst ?al2"
  have f1: "filter (\<lambda>k. k < ?c) ?K2 = filter (\<lambda>k. k < ?c) ?K1"
    by (simp add: keys_store)
  have f2: "filter (\<lambda>k. ?c < k) ?K2 = filter (\<lambda>k. ?c < k) ?K1"
    by (simp add: keys_store)
  have mem: "?c \<in> set (filter (\<lambda>k. k \<noteq> NaN) ?K2)"
    using nn by (simp add: keys_store)
  have "filter (\<lambda>k. k = ?c) ?K2 = filter (\<lambda>k. k = ?c) (filter (\<lambda>k. k \<noteq> NaN) ?K2)"
    using nn by - (rule sym, auto intro!: filter_cong)
  also have "\<dots> = [?c]"
    by (rule filter_eq_distinct) (use keys_ok_store[OF assms(1), of ?c b] mem in \<open>auto simp: keys_ok_def\<close>)
  finally have f3: "filter (\<lambda>k. k = ?c) ?K2 = [?c]" .
  have "sort ?K2 = filter (\<lambda>k. k < ?c) (sort ?K2) @ filter (\<lambda>k. k = ?c) (sort ?K2)
                     @ filter (\<lambda>k. ?c < k) (sort ?K2)"
    by (rule sorted_split) simp
  also have "\<dots> = filter (\<lambda>k. k < ?c) (sort ?K1) @ [?c] @ filter (\<lambda>k. ?c < k) (sort ?K1)"
    by (simp only: filter_sort f1 f2 f3) simp
  finally have s: "sort ?K2 = filter (\<lambda>k. k < ?c) (sort ?K1) @ [?c]
                      @ filter (\<lambda>k. ?c < k) (sort ?K1)" .
  have lo: "map (\<lambda>k. newCostNode (fetch ?al2 k) k) (filter (\<lambda>k. k < ?c) (sort ?K1))
          = filter (\<lambda>n. cost n < ?c) (map (\<lambda>k. newCostNode (fetch al k) k) (sort ?K1))"
    using nn by (simp add: filter_map comp_def newCostNode_def fetch_store feq_iff cong: map_cong)
  have hi: "map (\<lambda>k. newCostNode (fetch ?al2 k) k) (filter (\<lambda>k. ?c < k) (sort ?K1))
          = filter (\<lambda>n. ?c < cost n) (map (\<lambda>k. newCostNode (fetch al k) k) (sort ?K1))"
    using nn by (simp add: filter_map comp_def newCostNode_def fetch_store feq_iff cong: map_cong)
  have mid: "newCostNode (fetch ?al2 ?c) ?c = newCostNode b ?c"
    using nn by (simp add: fetch_store feq_iff)
  show ?thesis
    by (simp only: s map_append lo hi list.map mid)
qed

subsection \<open>The loop and its state\<close>

text \<open>The number keys of the map stay distinct, and a \<^verbatim>\<open>break\<close> leaves at least one entry.\<close>

lemma on_candidate_keys:
  assumes "keys_ok (solutions st)"
  shows "case on_candidate opts fr sp gp seed n step st of
           Break st' \<Rightarrow> keys_ok (solutions st') \<and> solutions st' \<noteq> []
         | Continue st' \<Rightarrow> keys_ok (solutions st')"
proof -
  have "keys_ok (store k step ([] :: (float64 \<times> real list) list))" for k
    by (rule keys_ok_store) (simp add: keys_ok_def)
  then show ?thesis
    using assms
    by (auto simp: on_candidate_def Let_def keys_ok_store split: prod.splits)
qed

lemma IK_loop_exit_inv:
  "IK_loop opts fr sp gp seed n ps st = Some ex \<Longrightarrow> keys_ok (solutions st) \<Longrightarrow>
     (case ex of Cancelled \<Rightarrow> True
      | Stopped st' \<Rightarrow> keys_ok (solutions st') \<and> solutions st' \<noteq> []
      | Drained st' \<Rightarrow> keys_ok (solutions st'))"
proof (induction ps arbitrary: st)
  case Nil
  then show ?case by simp
next
  case (Cons p ps)
  show ?case
  proof (cases p)
    case (Candidate step)
    show ?thesis
      using Cons Candidate on_candidate_keys[of st opts fr sp gp seed n step]
      by (auto split: step_result.splits)
  qed (use Cons in auto)
qed

text \<open>A loop that is still turning after some observations was so after fewer.\<close>

lemma IK_loop_prefix_running:
  "IK_loop opts fr sp gp seed n (ps @ qs) st = None \<Longrightarrow> IK_loop opts fr sp gp seed n ps st = None"
proof (induction ps arbitrary: st)
  case Nil
  then show ?case by simp
next
  case (Cons p ps)
  then show ?case by (cases p) (auto split: step_result.splits)
qed

text \<open>A loop that is still turning carries a state from which it goes on.\<close>

lemma IK_loop_running_state:
  "IK_loop opts fr sp gp seed n ps st = None \<Longrightarrow> keys_ok (solutions st) \<Longrightarrow>
   \<exists>st'. keys_ok (solutions st') \<and>
     (\<forall>rest. IK_loop opts fr sp gp seed n (ps @ rest) st = IK_loop opts fr sp gp seed n rest st')"
proof (induction ps arbitrary: st)
  case Nil
  then show ?case by auto
next
  case (Cons p ps)
  show ?case
  proof (cases p)
    case (Candidate step)
    then obtain st1 where c: "on_candidate opts fr sp gp seed n step st = Continue st1"
      and r: "IK_loop opts fr sp gp seed n ps st1 = None"
      using Cons.prems(1) by (auto split: step_result.splits)
    have "keys_ok (solutions st1)"
      using on_candidate_keys[OF Cons.prems(2), of opts fr sp gp seed n step] c by simp
    from Cons.IH[OF r this] show ?thesis using Candidate c by auto
  next
    case Idle
    then show ?thesis using Cons by auto
  qed (use Cons in auto)
qed

text \<open>With a positive bound the map stays below it while the loop turns.\<close>

lemma IK_loop_bound:
  assumes "0 < n"
  shows "int (length (solutions st)) < n \<Longrightarrow>
     (case IK_loop opts fr sp gp seed n ps st of
        None \<Rightarrow> True
      | Some Cancelled \<Rightarrow> True
      | Some (Stopped st') \<Rightarrow> int (length (solutions st')) \<le> n
      | Some (Drained st') \<Rightarrow> int (length (solutions st')) < n)"
proof (induction ps arbitrary: st)
  case Nil
  then show ?case by simp
next
  case (Cons p ps)
  show ?case
  proof (cases p)
    case (Candidate step)
    have "case on_candidate opts fr sp gp seed n step st of
            Break st' \<Rightarrow> int (length (solutions st')) \<le> n
          | Continue st' \<Rightarrow> int (length (solutions st')) < n"
      using Cons.prems assms length_store_le[of "fst (snd (CheckConstraints opts
            \<lparr>StartPos = Some sp, EndPos = Some gp,
             StartInput = seed, EndInput = step, Frame = fr\<rparr>))" step "solutions st"]
      by (auto simp: on_candidate_def Let_def split: prod.splits)
    then show ?thesis
      using Candidate Cons.IH by (auto split: step_result.splits)
  qed (use Cons in auto)
qed

subsection \<open>Rejected candidates\<close>

lemma on_candidate_rejected:
  "rejection opts fr sp gp seed step = Some nm \<Longrightarrow>
   on_candidate opts fr sp gp seed n step st =
     Continue (st\<lparr>constraintFailCnt := constraintFailCnt st + 1,
                  failures := incr (failures st) nm\<rparr>)"
  by (auto simp: rejection_def on_candidate_def Let_def split: prod.splits if_splits)

lemma on_candidate_accepted:
  "rejection opts fr sp gp seed step = None \<Longrightarrow>
   (case on_candidate opts fr sp gp seed n step st of
      Break st' \<Rightarrow> solutions st' \<noteq> [] | Continue st' \<Rightarrow> solutions st' \<noteq> [])"
  by (auto simp: rejection_def on_candidate_def Let_def split: prod.splits if_splits)

lemma on_candidate_keeps_nonempty:
  "solutions st \<noteq> [] \<Longrightarrow>
   (case on_candidate opts fr sp gp seed n step st of
      Break st' \<Rightarrow> solutions st' \<noteq> [] | Continue st' \<Rightarrow> solutions st' \<noteq> [])"
  by (auto simp: on_candidate_def Let_def split: prod.splits if_splits)

lemma IK_loop_keeps_nonempty:
  "IK_loop opts fr sp gp seed n ps st = Some (Drained st') \<Longrightarrow> solutions st \<noteq> [] \<Longrightarrow>
     solutions st' \<noteq> []"
proof (induction ps arbitrary: st)
  case Nil
  then show ?case by simp
next
  case (Cons p ps)
  show ?case
  proof (cases p)
    case (Candidate step)
    then show ?thesis
      using Cons on_candidate_keeps_nonempty[OF Cons.prems(2), of opts fr sp gp seed n step]
      by (auto split: step_result.splits)
  qed (use Cons in auto)
qed

lemma fold_incr:
  "fold (\<lambda>nm m. incr m nm) names m =
     (\<lambda>k. if count_list names k = 0 then m k
          else Some (count_list names k + (case m k of None \<Rightarrow> 0 | Some c \<Rightarrow> c)))"
proof (induction names arbitrary: m)
  case Nil
  then show ?case by simp
next
  case (Cons a names)
  show ?case
    unfolding fold_simps Cons.IH
    by (rule ext) (simp add: incr_def)
qed

lemma fold_incr_empty: "fold (\<lambda>nm m. incr m nm) names Map.empty = tally names"
  unfolding fold_incr tally_def by (rule ext) simp

text \<open>
  Observations without an end from outside, in which every candidate is rejected,
  followed by the solver's completion: the loop ends there, having counted every
  candidate as failed under the name of its rejection and having left the map alone.
\<close>

lemma IK_loop_all_rejected:
  "CtxDone \<notin> set pre \<Longrightarrow> SolverDone \<notin> set pre \<Longrightarrow>
   list_all (\<lambda>s. rejection opts fr sp gp seed s \<noteq> None) (received pre) \<Longrightarrow>
   IK_loop opts fr sp gp seed n (pre @ SolverDone # rest) st =
     Some (Drained (st\<lparr>constraintFailCnt := constraintFailCnt st + length (received pre),
                       failures := fold (\<lambda>nm m. incr m nm)
                          (List.map_filter (rejection opts fr sp gp seed) (received pre))
                          (failures st)\<rparr>))"
proof (induction pre arbitrary: st)
  case Nil
  then show ?case by simp
next
  case (Cons p pre)
  show ?case
  proof (cases p)
    case (Candidate step)
    then obtain nm where nm: "rejection opts fr sp gp seed step = Some nm"
      using Cons.prems(3) by auto
    have all: "list_all (\<lambda>s. rejection opts fr sp gp seed s \<noteq> None) (received pre)"
      using Cons.prems(3) Candidate by simp
    show ?thesis
      using Cons.IH[OF _ _ all] Cons.prems(1,2) Candidate nm
      by (simp add: on_candidate_rejected[OF nm] List.map_filter_simps)
  next
    case Idle
    then show ?thesis using Cons by simp
  qed (use Cons.prems in auto)
qed

text \<open>
  A loop ended by the solver with an empty map has counted every received candidate as
  failed, each under the name of its rejection.
\<close>

lemma IK_loop_drained_empty:
  "IK_loop opts fr sp gp seed n ps st = Some (Drained st') \<Longrightarrow> solutions st' = [] \<Longrightarrow>
     list_all (\<lambda>s. rejection opts fr sp gp seed s \<noteq> None) (received ps) \<and>
     constraintFailCnt st' = constraintFailCnt st + length (received ps) \<and>
     failures st' = fold (\<lambda>nm m. incr m nm)
        (List.map_filter (rejection opts fr sp gp seed) (received ps)) (failures st)"
proof (induction ps arbitrary: st)
  case Nil
  then show ?case by simp
next
  case (Cons p ps)
  show ?case
  proof (cases p)
    case (Candidate step)
    then obtain st1 where c: "on_candidate opts fr sp gp seed n step st = Continue st1"
      and r: "IK_loop opts fr sp gp seed n ps st1 = Some (Drained st')"
      using Cons.prems(1) by (auto split: step_result.splits)
    from Cons.IH[OF r Cons.prems(2)] have ih:
      "list_all (\<lambda>s. rejection opts fr sp gp seed s \<noteq> None) (received ps)"
      "constraintFailCnt st' = constraintFailCnt st1 + length (received ps)"
      "failures st' = fold (\<lambda>nm m. incr m nm)
        (List.map_filter (rejection opts fr sp gp seed) (received ps)) (failures st1)"
      by auto
    have e1: "solutions st1 = []"
      using IK_loop_keeps_nonempty[OF r] Cons.prems(2) by blast
    obtain nm where nm: "rejection opts fr sp gp seed step = Some nm"
      using on_candidate_accepted[of opts fr sp gp seed step n st] c e1
      by (cases "rejection opts fr sp gp seed step") auto
    have st1: "st1 = st\<lparr>constraintFailCnt := constraintFailCnt st + 1,
                  failures := incr (failures st) nm\<rparr>"
      using on_candidate_rejected[OF nm, of n st] c by simp
    show ?thesis
      using ih nm Candidate by (simp add: st1 List.map_filter_simps)
  qed (use Cons in auto)
qed

subsection \<open>The result\<close>

lemma order_solutions_nonempty:
  "solutions st \<noteq> [] \<Longrightarrow>
   order_solutions st =
     Inr (map (\<lambda>k. newCostNode (fetch (solutions st) k) k) (sort (map fst (solutions st))))"
  by (simp add: order_solutions_def)

lemma collected_order_solutions:
  "collected (order_solutions st) =
     map (\<lambda>k. newCostNode (fetch (solutions st) k) k) (sort (map fst (solutions st)))"
  by (simp add: order_solutions_def collected_def)

lemma order_solutions_sorted:
  assumes "order_solutions st = Inr sols" and "keys_ok (solutions st)"
  shows "sols \<noteq> [] \<and> sorted (map cost sols)
           \<and> sorted_wrt flt (filter (\<lambda>c. c \<noteq> NaN) (map cost sols))
           \<and> distinct (filter (\<lambda>c. c \<noteq> NaN) (map cost sols))"
proof -
  have ne: "solutions st \<noteq> []"
    using assms(1) by (auto simp: order_solutions_def split: if_splits)
  have s: "sols = map (\<lambda>k. newCostNode (fetch (solutions st) k) k)
                   (sort (map fst (solutions st)))"
    using assms(1) ne by (auto simp: order_solutions_def)
  have c: "map cost sols = sort (map fst (solutions st))"
    unfolding s by (simp add: newCostNode_def comp_def)
  have n: "sols \<noteq> []"
    using ne s by (metis Nil_is_map_conv length_0_conv length_sort)
  let ?num = "filter (\<lambda>c. c \<noteq> NaN) (map cost sols)"
  have f: "?num = sort (filter (\<lambda>c. c \<noteq> NaN) (map fst (solutions st)))"
    unfolding c by (simp add: filter_sort)
  have d: "distinct ?num"
    unfolding f using assms(2) by (simp add: keys_ok_def)
  have "sorted ?num" unfolding f by simp
  with d have "sorted_wrt (<) ?num" by (simp add: strict_sorted_iff)
  then have "sorted_wrt flt ?num"
    by (rule sorted_wrt_mono_rel[rotated]) (simp add: flt_iff)
  with n d show ?thesis by (simp add: c)
qed

lemma order_solutions_length:
  "order_solutions st = Inr sols \<Longrightarrow> length sols = length (solutions st)"
  by (auto simp: order_solutions_def Let_def split: if_splits)

lemma order_solutions_Inl:
  "order_solutions st = Inl e \<Longrightarrow>
     solutions st = [] \<and>
     e = (if constraintFailCnt st = 0 then errIKSolve
          else genIKConstraintErr (failures st) (constraintFailCnt st))"
  by (auto simp: order_solutions_def Let_def split: if_splits)

lemma getSolutions_unfold:
  assumes "planOpts mp = Some opts" and "Transform (frame mp) seed = Inr seedPos"
  shows "getSolutions pk mp env goal seed =
      (case IK_loop opts (frame mp) seedPos (fixOvIncrement pk goal seedPos) seed
              (if MaxSolutions opts = 0 then defaultSolutionsToSeed pk else MaxSolutions opts)
              (polls env) \<lparr>solutions = [], failures = Map.empty, constraintFailCnt = 0\<rparr> of
         None \<Rightarrow> None
       | Some Cancelled \<Rightarrow> (if solver_ends env then Some (Inl ctxErr) else None)
       | Some (Stopped st) \<Rightarrow> (if solver_ends env then Some (order_solutions st) else None)
       | Some (Drained st) \<Rightarrow> Some (order_solutions st))"
  using assms by (simp add: getSolutions_def Let_def)

text \<open>
  A call whose loop is still turning after some observations, seen from a solver task
  that ends: the state that the loop has reached.
\<close>

lemma getSolutions_running:
  assumes "planOpts mp = Some opts" and "Transform (frame mp) seed = Inr seedPos"
    and "getSolutions pk mp \<lparr>polls = pre, solver_ends = True\<rparr> goal seed = None"
  shows "\<exists>st. keys_ok (solutions st) \<and>
     (\<forall>rest. IK_loop opts (frame mp) seedPos (fixOvIncrement pk goal seedPos) seed
              (if MaxSolutions opts = 0 then defaultSolutionsToSeed pk else MaxSolutions opts)
              (pre @ rest) \<lparr>solutions = [], failures = Map.empty, constraintFailCnt = 0\<rparr>
         = IK_loop opts (frame mp) seedPos (fixOvIncrement pk goal seedPos) seed
              (if MaxSolutions opts = 0 then defaultSolutionsToSeed pk else MaxSolutions opts)
              rest st)"
proof -
  have run: "IK_loop opts (frame mp) seedPos (fixOvIncrement pk goal seedPos) seed
              (if MaxSolutions opts = 0 then defaultSolutionsToSeed pk else MaxSolutions opts)
              pre \<lparr>solutions = [], failures = Map.empty, constraintFailCnt = 0\<rparr> = None"
    using assms(3) unfolding getSolutions_unfold[OF assms(1,2)]
    by (auto split: option.splits loop_exit.splits)
  show ?thesis
    by (rule IK_loop_running_state[OF run]) (simp add: keys_ok_def)
qed

subsection \<open>The order of a successful result\<close>

text \<open>
  Claim C1, amended. Every successful result of \<^verbatim>\<open>getSolutions\<close> is non-empty and in the
  order of \<^verbatim>\<open>sort.Float64s\<close>, and its costs that are numbers are strictly ascending, so
  no two entries share a numeric cost; a result without a cost that is not a number is
  strictly ascending throughout. An accepted candidate \<open>b\<close> whose cost \<open>c\<close> is a number,
  received while the loop is still turning and not ending the search by the early exit,
  changes the collected entries in one place only: were the solver to complete next, the
  result would be the entries of smaller cost collected so far, unchanged, then \<open>b\<close> with
  cost \<open>c\<close>, then the entries of greater cost collected so far, unchanged. So a candidate
  takes the place of the entry of numerically identical cost, the last one found
  winning, and of no other entry. (In the order of the type a cost that is not a number
  is smaller than every number.)
\<close>

theorem getSolutions_sorted_dedup:
  "(getSolutions pk mp env goal seed = Some (Inr sols) \<longrightarrow>
      sols \<noteq> [] \<and> sorted (map cost sols)
      \<and> sorted_wrt flt (filter (\<lambda>c. c \<noteq> NaN) (map cost sols))
      \<and> distinct (filter (\<lambda>c. c \<noteq> NaN) (map cost sols)))
   \<and>
   (planOpts mp = Some opts \<and> Transform (frame mp) seed = Inr seedPos \<and>
    CheckConstraints opts
      \<lparr>StartPos = Some seedPos, EndPos = Some (fixOvIncrement pk goal seedPos),
       StartInput = seed, EndInput = b, Frame = frame mp\<rparr> = (True, c, n1) \<and>
    CheckConstraints opts
      \<lparr>StartPos = Some (fixOvIncrement pk goal seedPos),
       EndPos = Some (fixOvIncrement pk goal seedPos),
       StartInput = b, EndInput = b, Frame = frame mp\<rparr> = (True, c', n2) \<and>
    c \<noteq> NaN \<and> \<not> (flt c (MinScore opts) \<and> flt (Num 0) (MinScore opts)) \<and>
    getSolutions pk mp \<lparr>polls = pre, solver_ends = True\<rparr> goal seed = None
    \<longrightarrow>
    (\<exists>r. getSolutions pk mp \<lparr>polls = pre @ [SolverDone], solver_ends = True\<rparr> goal seed = Some r
         \<and> getSolutions pk mp \<lparr>polls = pre @ [Candidate b, SolverDone], solver_ends = True\<rparr>
              goal seed
             = Some (Inr (filter (\<lambda>n. cost n < c) (collected r)
                          @ [newCostNode b c]
                          @ filter (\<lambda>n. c < cost n) (collected r)))))"
proof (intro conjI impI)
  assume ok: "getSolutions pk mp env goal seed = Some (Inr sols)"
  then obtain o1 where o1: "planOpts mp = Some o1"
    by (auto simp: getSolutions_def split: option.splits)
  from ok o1 obtain sp where sp: "Transform (frame mp) seed = Inr sp"
    by (auto simp: getSolutions_def Let_def split: sum.splits)
  define n where "n = (if MaxSolutions o1 = 0 then defaultSolutionsToSeed pk else MaxSolutions o1)"
  define init where "init = \<lparr>solutions = [], failures = Map.empty, constraintFailCnt = 0\<rparr>"
  note gs = getSolutions_unfold[OF o1 sp, of pk env goal, folded n_def init_def]
  from ok obtain ex st where
    ex: "IK_loop o1 (frame mp) sp (fixOvIncrement pk goal sp) seed n (polls env) init = Some ex"
    and st: "ex = Stopped st \<or> ex = Drained st" and os: "order_solutions st = Inr sols"
    unfolding gs by (auto split: option.splits loop_exit.splits if_splits)
  have "keys_ok (solutions init)" by (simp add: init_def keys_ok_def)
  from IK_loop_exit_inv[OF ex this] st have "keys_ok (solutions st)" by auto
  from order_solutions_sorted[OF os this]
  show "sols \<noteq> []" and "sorted (map cost sols)"
    and "sorted_wrt flt (filter (\<lambda>c. c \<noteq> NaN) (map cost sols))"
    and "distinct (filter (\<lambda>c. c \<noteq> NaN) (map cost sols))"
    by auto
next
  assume h: "planOpts mp = Some opts \<and> Transform (frame mp) seed = Inr seedPos \<and>
    CheckConstraints opts
      \<lparr>StartPos = Some seedPos, EndPos = Some (fixOvIncrement pk goal seedPos),
       StartInput = seed, EndInput = b, Frame = frame mp\<rparr> = (True, c, n1) \<and>
    CheckConstraints opts
      \<lparr>StartPos = Some (fixOvIncrement pk goal seedPos),
       EndPos = Some (fixOvIncrement pk goal seedPos),
       StartInput = b, EndInput = b, Frame = frame mp\<rparr> = (True, c', n2) \<and>
    c \<noteq> NaN \<and> \<not> (flt c (MinScore opts) \<and> flt (Num 0) (MinScore opts)) \<and>
    getSolutions pk mp \<lparr>polls = pre, solver_ends = True\<rparr> goal seed = None"
  define n where "n = (if MaxSolutions opts = 0 then defaultSolutionsToSeed pk else MaxSolutions opts)"
  define init where "init = \<lparr>solutions = [], failures = Map.empty, constraintFailCnt = 0\<rparr>"
  define gp where "gp = fixOvIncrement pk goal seedPos"
  from h have o: "planOpts mp = Some opts" and t: "Transform (frame mp) seed = Inr seedPos"
    and run: "getSolutions pk mp \<lparr>polls = pre, solver_ends = True\<rparr> goal seed = None"
    and nn: "c \<noteq> NaN"
    by auto
  note gs = getSolutions_unfold[OF o t, of pk _ goal, folded n_def init_def gp_def]
  from getSolutions_running[OF o t run, folded n_def init_def gp_def] obtain st1 where
    k1: "keys_ok (solutions st1)" and
    r1: "\<And>rest. IK_loop opts (frame mp) seedPos gp seed n (pre @ rest) init =
                 IK_loop opts (frame mp) seedPos gp seed n rest st1"
    by blast
  define st2 where "st2 = st1\<lparr>solutions := store c b (solutions st1)\<rparr>"
  have oc: "on_candidate opts (frame mp) seedPos gp seed n b st1 = Break st2
            \<or> on_candidate opts (frame mp) seedPos gp seed n b st1 = Continue st2"
    using h unfolding on_candidate_def gp_def st2_def Let_def by auto
  have a: "getSolutions pk mp \<lparr>polls = pre @ [SolverDone], solver_ends = True\<rparr> goal seed
             = Some (order_solutions st1)"
    unfolding gs by (simp add: r1)
  have "IK_loop opts (frame mp) seedPos gp seed n (pre @ [Candidate b, SolverDone]) init
          = Some (Stopped st2)
        \<or> IK_loop opts (frame mp) seedPos gp seed n (pre @ [Candidate b, SolverDone]) init
          = Some (Drained st2)"
    unfolding r1 using oc by auto
  then have "getSolutions pk mp \<lparr>polls = pre @ [Candidate b, SolverDone], solver_ends = True\<rparr>
               goal seed = Some (order_solutions st2)"
    unfolding gs by auto
  also have "order_solutions st2
      = Inr (map (\<lambda>k. newCostNode (fetch (store c b (solutions st1)) k) k)
               (sort (map fst (store c b (solutions st1)))))"
    by (simp add: order_solutions_nonempty st2_def)
  also have "\<dots> = Inr (filter (\<lambda>n. cost n < c) (collected (order_solutions st1))
                          @ [newCostNode b c]
                          @ filter (\<lambda>n. c < cost n) (collected (order_solutions st1)))"
    by (simp only: order_after_store[OF k1 nn] collected_order_solutions)
  finally show "\<exists>r. getSolutions pk mp \<lparr>polls = pre @ [SolverDone], solver_ends = True\<rparr> goal seed
           = Some r
         \<and> getSolutions pk mp \<lparr>polls = pre @ [Candidate b, SolverDone], solver_ends = True\<rparr>
              goal seed
             = Some (Inr (filter (\<lambda>n. cost n < c) (collected r)
                          @ [newCostNode b c]
                          @ filter (\<lambda>n. c < cost n) (collected r)))"
    using a by blast
qed

text \<open>
  Candidates of cost 1 and 4 are held; a further candidate of cost 1 takes the place of
  the first and leaves the entry of cost 4 as it is.
\<close>

theorem getSolutions_sorted_dedup_witness:
  "getSolutions ex_package (ex_planner 0 0)
     \<lparr>polls = [Candidate [1, 0], Candidate [0, 2]], solver_ends = True\<rparr> 0 [0, 0] = None
   \<and> getSolutions ex_package (ex_planner 0 0)
     \<lparr>polls = [Candidate [1, 0], Candidate [0, 2], SolverDone], solver_ends = True\<rparr> 0 [0, 0]
     = Some (Inr [newCostNode [1, 0] (Num 1), newCostNode [0, 2] (Num 4)])
   \<and> getSolutions ex_package (ex_planner 0 0)
     \<lparr>polls = [Candidate [1, 0], Candidate [0, 2], Candidate [0, 1], SolverDone],
      solver_ends = True\<rparr> 0 [0, 0]
     = Some (Inr [newCostNode [0, 1] (Num 1), newCostNode [0, 2] (Num 4)])
   \<and> sorted_wrt flt (map cost [newCostNode [0, 1] (Num 1), newCostNode [0, 2] (Num 4)])"
proof -
  let ?pre = "[Candidate [1, 0], Candidate [0, 2]]"
  have r: "getSolutions ex_package (ex_planner 0 0)
     \<lparr>polls = ?pre, solver_ends = True\<rparr> 0 [0, 0] = None"
    by (simp add: gs_eval)
  have e: "getSolutions ex_package (ex_planner 0 0)
     \<lparr>polls = ?pre @ [SolverDone], solver_ends = True\<rparr> 0 [0, 0]
     = Some (Inr [newCostNode [1, 0] (Num 1), newCostNode [0, 2] (Num 4)])"
    by (simp add: gs_eval)
  have o: "planOpts (ex_planner 0 0) = Some (ex_opts 0 0)"
    by (simp add: ex_defs)
  have t: "Transform (frame (ex_planner 0 0)) [0, 0] = Inr 2"
    by (simp add: ex_defs)
  have c1: "CheckConstraints (ex_opts 0 0)
      \<lparr>StartPos = Some 2, EndPos = Some (fixOvIncrement ex_package 0 2),
       StartInput = [0, 0], EndInput = [0, 1], Frame = frame (ex_planner 0 0)\<rparr>
      = (True, Num 1, [])"
    by (simp add: ex_defs)
  have c2: "CheckConstraints (ex_opts 0 0)
      \<lparr>StartPos = Some (fixOvIncrement ex_package 0 2),
       EndPos = Some (fixOvIncrement ex_package 0 2),
       StartInput = [0, 1], EndInput = [0, 1], Frame = frame (ex_planner 0 0)\<rparr>
      = (True, Num 1, [])"
    by (simp add: ex_defs)
  have m: "\<not> (flt (Num 1) (MinScore (ex_opts 0 0)) \<and> flt (Num 0) (MinScore (ex_opts 0 0)))"
    by (simp add: ex_defs)
  from getSolutions_sorted_dedup[where pk = ex_package and mp = "ex_planner 0 0"
      and goal = 0 and seed = "[0, 0]" and opts = "ex_opts 0 0" and seedPos = 2
      and b = "[0, 1]" and c = "Num 1" and ?n1.0 = "[]" and c' = "Num 1" and ?n2.0 = "[]"
      and pre = ?pre] o t c1 c2 m r
  obtain res where
    "getSolutions ex_package (ex_planner 0 0)
       \<lparr>polls = ?pre @ [SolverDone], solver_ends = True\<rparr> 0 [0, 0] = Some res"
    and f: "getSolutions ex_package (ex_planner 0 0)
       \<lparr>polls = ?pre @ [Candidate [0, 1], SolverDone], solver_ends = True\<rparr> 0 [0, 0]
       = Some (Inr (filter (\<lambda>n. cost n < Num 1) (collected res)
                          @ [newCostNode [0, 1] (Num 1)]
                          @ filter (\<lambda>n. Num 1 < cost n) (collected res)))"
    by blast
  with e have "res = Inr [newCostNode [1, 0] (Num 1), newCostNode [0, 2] (Num 4)]"
    by simp
  with f have "getSolutions ex_package (ex_planner 0 0)
       \<lparr>polls = ?pre @ [Candidate [0, 1], SolverDone], solver_ends = True\<rparr> 0 [0, 0]
       = Some (Inr [newCostNode [0, 1] (Num 1), newCostNode [0, 2] (Num 4)])"
    by (simp add: collected_def newCostNode_def)
  with r e show ?thesis by (simp add: newCostNode_def)
qed

text \<open>
  The claim as it was stated fails for scores that are not numbers. Two candidates are
  accepted with the score \<open>NaN\<close>: each write adds an entry, each read of the map misses,
  and the result is two nodes of cost \<open>NaN\<close> with the nil configuration, which is not
  strictly ascending.
\<close>

theorem getSolutions_sorted_dedup_counterexample:
  "CheckConstraints (ex_opts 0 0)
      \<lparr>StartPos = Some 2, EndPos = Some 0, StartInput = [0, 0], EndInput = [1, -1],
       Frame = ex_frame\<rparr> = (True, NaN, [])
   \<and> CheckConstraints (ex_opts 0 0)
      \<lparr>StartPos = Some 2, EndPos = Some 0, StartInput = [0, 0], EndInput = [2, -2],
       Frame = ex_frame\<rparr> = (True, NaN, [])
   \<and> getSolutions ex_package (ex_planner 0 0)
        \<lparr>polls = [Candidate [1, -1], Candidate [2, -2], SolverDone], solver_ends = True\<rparr>
        0 [0, 0]
       = Some (Inr [newCostNode [] NaN, newCostNode [] NaN])
   \<and> \<not> sorted_wrt flt (map cost [newCostNode [] NaN, newCostNode [] NaN])"
  by (simp add: gs_eval)

subsection \<open>The early exit on a good score\<close>

text \<open>
  Claim C2, amended. With a positive \<^verbatim>\<open>MinScore\<close>, a candidate that the loop receives
  while it is still turning, that passes both constraint checks and whose score is below
  \<^verbatim>\<open>MinScore\<close>, ends the search: whatever was collected before is discarded, later
  observations are not looked at, and (the solver task ending once cancelled) the call
  returns exactly one entry, that candidate with its score. A candidate that fails a
  constraint check does not end the search, whatever its score: the loop is still
  turning after it.
\<close>

theorem getSolutions_MinScore:
  assumes "planOpts mp = Some opts" and "Transform (frame mp) seed = Inr seedPos"
    and "getSolutions pk mp \<lparr>polls = pre, solver_ends = True\<rparr> goal seed = None"
  shows "(flt (Num 0) (MinScore opts) \<and>
          CheckConstraints opts
            \<lparr>StartPos = Some seedPos, EndPos = Some (fixOvIncrement pk goal seedPos),
             StartInput = seed, EndInput = step, Frame = frame mp\<rparr> = (True, cScore, n1) \<and>
          CheckConstraints opts
            \<lparr>StartPos = Some (fixOvIncrement pk goal seedPos),
             EndPos = Some (fixOvIncrement pk goal seedPos),
             StartInput = step, EndInput = step, Frame = frame mp\<rparr> = (True, s2, n2) \<and>
          flt cScore (MinScore opts)
          \<longrightarrow>
          getSolutions pk mp \<lparr>polls = pre @ Candidate step # rest, solver_ends = True\<rparr> goal seed
            = Some (Inr [newCostNode step cScore]))
         \<and>
         (rejection opts (frame mp) seedPos (fixOvIncrement pk goal seedPos) seed failed = Some nm
          \<longrightarrow>
          getSolutions pk mp \<lparr>polls = pre @ [Candidate failed], solver_ends = True\<rparr> goal seed
            = None)"
proof -
  define n where "n = (if MaxSolutions opts = 0 then defaultSolutionsToSeed pk else MaxSolutions opts)"
  define init where "init = \<lparr>solutions = [], failures = Map.empty, constraintFailCnt = 0\<rparr>"
  define gp where "gp = fixOvIncrement pk goal seedPos"
  note gs = getSolutions_unfold[OF assms(1,2), of pk _ goal, folded n_def init_def gp_def]
  from getSolutions_running[OF assms, folded n_def init_def gp_def] obtain st1 where
    r1: "\<And>rest. IK_loop opts (frame mp) seedPos gp seed n (pre @ rest) init =
                 IK_loop opts (frame mp) seedPos gp seed n rest st1"
    by blast
  show ?thesis
  proof (intro conjI impI)
    assume h: "flt (Num 0) (MinScore opts) \<and>
          CheckConstraints opts
            \<lparr>StartPos = Some seedPos, EndPos = Some (fixOvIncrement pk goal seedPos),
             StartInput = seed, EndInput = step, Frame = frame mp\<rparr> = (True, cScore, n1) \<and>
          CheckConstraints opts
            \<lparr>StartPos = Some (fixOvIncrement pk goal seedPos),
             EndPos = Some (fixOvIncrement pk goal seedPos),
             StartInput = step, EndInput = step, Frame = frame mp\<rparr> = (True, s2, n2) \<and>
          flt cScore (MinScore opts)"
    have oc: "on_candidate opts (frame mp) seedPos gp seed n step st1
                = Break (st1\<lparr>solutions := [(cScore, step)]\<rparr>)"
      using h unfolding on_candidate_def gp_def by simp
    have "IK_loop opts (frame mp) seedPos gp seed n (pre @ Candidate step # rest) init
            = Some (Stopped (st1\<lparr>solutions := [(cScore, step)]\<rparr>))"
      unfolding r1 by (simp add: oc)
    then show "getSolutions pk mp
        \<lparr>polls = pre @ Candidate step # rest, solver_ends = True\<rparr> goal seed
          = Some (Inr [newCostNode step cScore])"
      using h unfolding gs by (cases cScore) (simp_all add: order_solutions_def)
  next
    assume "rejection opts (frame mp) seedPos (fixOvIncrement pk goal seedPos) seed failed = Some nm"
    then have "rejection opts (frame mp) seedPos gp seed failed = Some nm"
      by (simp add: gp_def)
    from on_candidate_rejected[OF this, of n st1]
    have "IK_loop opts (frame mp) seedPos gp seed n (pre @ [Candidate failed]) init = None"
      unfolding r1 by simp
    then show "getSolutions pk mp \<lparr>polls = pre @ [Candidate failed], solver_ends = True\<rparr> goal seed
        = None"
      unfolding gs by simp
  qed
qed

text \<open>
  With \<^verbatim>\<open>MinScore\<close> 1/2: a candidate of score 1 is kept, the next one of score 1/4 ends the
  search and is the only entry; the candidate after it is never looked at. A candidate
  that fails the second check leaves the loop turning.
\<close>

theorem getSolutions_MinScore_witness:
  "getSolutions ex_package (ex_planner 0 (1/2))
      \<lparr>polls = [Candidate [1, 0]], solver_ends = True\<rparr> 0 [0, 0] = None
   \<and> getSolutions ex_package (ex_planner 0 (1/2))
      \<lparr>polls = [Candidate [1, 0], Candidate [1/2, 0], Candidate [0, 2], SolverDone],
       solver_ends = True\<rparr> 0 [0, 0]
     = Some (Inr [newCostNode [1/2, 0] (Num (1/4))])
   \<and> rejection (ex_opts 0 (1/2)) ex_frame 2 0 [0, 0] [-1/2, 0] = Some ''negative''
   \<and> getSolutions ex_package (ex_planner 0 (1/2))
      \<lparr>polls = [Candidate [1, 0], Candidate [-1/2, 0]], solver_ends = True\<rparr> 0 [0, 0] = None"
proof -
  have r: "getSolutions ex_package (ex_planner 0 (1/2))
      \<lparr>polls = [Candidate [1, 0]], solver_ends = True\<rparr> 0 [0, 0] = None"
    by (simp add: gs_eval)
  have o: "planOpts (ex_planner 0 (1/2)) = Some (ex_opts 0 (1/2))"
    by (simp add: ex_defs)
  have t: "Transform (frame (ex_planner 0 (1/2))) [0, 0] = Inr 2"
    by (simp add: ex_defs)
  have m: "flt (Num 0) (MinScore (ex_opts 0 (1/2)))"
    by (simp add: ex_defs)
  have c1: "CheckConstraints (ex_opts 0 (1/2))
      \<lparr>StartPos = Some 2, EndPos = Some (fixOvIncrement ex_package 0 2),
       StartInput = [0, 0], EndInput = [1/2, 0], Frame = frame (ex_planner 0 (1/2))\<rparr>
      = (True, Num (1/4), [])"
    by (simp add: ex_defs)
  have c2: "CheckConstraints (ex_opts 0 (1/2))
      \<lparr>StartPos = Some (fixOvIncrement ex_package 0 2),
       EndPos = Some (fixOvIncrement ex_package 0 2),
       StartInput = [1/2, 0], EndInput = [1/2, 0], Frame = frame (ex_planner 0 (1/2))\<rparr>
      = (True, Num (1/4), [])"
    by (simp add: ex_defs)
  have l: "flt (Num (1/4)) (MinScore (ex_opts 0 (1/2)))"
    by (simp add: ex_defs)
  have j: "rejection (ex_opts 0 (1/2)) (frame (ex_planner 0 (1/2))) 2
             (fixOvIncrement ex_package 0 2) [0, 0] [-1/2, 0] = Some ''negative''"
    by (simp add: rejection_def ex_defs)
  note w = getSolutions_MinScore[OF o t r, where step = "[1/2, 0]" and cScore = "Num (1/4)"
      and ?n1.0 = "[]" and ?s2.0 = "Num (1/4)" and ?n2.0 = "[]"
      and rest = "[Candidate [0, 2], SolverDone]" and failed = "[-1/2, 0]"
      and nm = "''negative''"]
  from w m c1 c2 l have a: "getSolutions ex_package (ex_planner 0 (1/2))
      \<lparr>polls = [Candidate [1, 0]] @ Candidate [1/2, 0] # [Candidate [0, 2], SolverDone],
       solver_ends = True\<rparr> 0 [0, 0]
     = Some (Inr [newCostNode [1/2, 0] (Num (1/4))])"
    by blast
  from w j have b: "getSolutions ex_package (ex_planner 0 (1/2))
      \<lparr>polls = [Candidate [1, 0]] @ [Candidate [-1/2, 0]], solver_ends = True\<rparr> 0 [0, 0] = None"
    by blast
  have j': "rejection (ex_opts 0 (1/2)) ex_frame 2 0 [0, 0] [-1/2, 0] = Some ''negative''"
    using j by (simp add: ex_planner_def ex_package_def)
  from r a b j' show ?thesis by simp
qed

text \<open>
  The claim as it was stated fails for a candidate that scores below \<^verbatim>\<open>MinScore\<close> and
  does not pass the second check: with \<^verbatim>\<open>MinScore\<close> 1/2 the candidate \<open>[-1/2, 0]\<close> passes
  the first check with score 1/4 and fails the second one; the search goes on and the
  result holds the two candidates collected before it.
\<close>

theorem getSolutions_MinScore_counterexample:
  "flt (Num 0) (MinScore (ex_opts 0 (1/2)))
   \<and> CheckConstraints (ex_opts 0 (1/2))
        \<lparr>StartPos = Some 2, EndPos = Some 0, StartInput = [0, 0], EndInput = [-1/2, 0],
         Frame = ex_frame\<rparr> = (True, Num (1/4), [])
   \<and> flt (Num (1/4)) (MinScore (ex_opts 0 (1/2)))
   \<and> getSolutions ex_package (ex_planner 0 (1/2))
        \<lparr>polls = [Candidate [1, 0], Candidate [0, 2], Candidate [-1/2, 0], SolverDone],
         solver_ends = True\<rparr> 0 [0, 0]
       = Some (Inr [newCostNode [1, 0] (Num 1), newCostNode [0, 2] (Num 4)])"
  by (simp add: gs_eval)

subsection \<open>The bound on the number of solutions\<close>

text \<open>
  Claim C3, amended. Let \<open>n\<close> be \<^verbatim>\<open>MaxSolutions\<close> when that is not zero and the package's
  \<^verbatim>\<open>defaultSolutionsToSeed\<close> when it is. If \<open>n\<close> is positive, every successful result has
  at most \<open>n\<close> entries, and the loop turns on only while it holds fewer than \<open>n\<close>: a
  loop that is still turning and is then ended by the solver returns fewer than \<open>n\<close>
  entries.
\<close>

theorem getSolutions_MaxSolutions:
  assumes "planOpts mp = Some opts"
    and "n = (if MaxSolutions opts = 0 then defaultSolutionsToSeed pk else MaxSolutions opts)"
    and "0 < n"
  shows "(getSolutions pk mp env goal seed = Some (Inr sols) \<longrightarrow> int (length sols) \<le> n) \<and>
         (getSolutions pk mp \<lparr>polls = pre, solver_ends = True\<rparr> goal seed = None \<and>
          getSolutions pk mp \<lparr>polls = pre @ [SolverDone], solver_ends = True\<rparr> goal seed
            = Some (Inr held)
          \<longrightarrow> int (length held) < n)"
proof (intro conjI impI)
  assume ok: "getSolutions pk mp env goal seed = Some (Inr sols)"
  then obtain sp where sp: "Transform (frame mp) seed = Inr sp"
    using assms(1) by (auto simp: getSolutions_def Let_def split: sum.splits)
  note gs = getSolutions_unfold[OF assms(1) sp, of pk env goal, folded assms(2)]
  have "int (length (solutions \<lparr>solutions = [], failures = Map.empty, constraintFailCnt = 0\<rparr>)) < n"
    using assms(3) by simp
  from IK_loop_bound[OF assms(3) this, of opts "frame mp" sp "fixOvIncrement pk goal sp" seed "polls env"]
    ok
  show "int (length sols) \<le> n"
    unfolding gs
    by (auto split: option.splits loop_exit.splits if_splits dest!: order_solutions_length)
next
  assume h: "getSolutions pk mp \<lparr>polls = pre, solver_ends = True\<rparr> goal seed = None \<and>
          getSolutions pk mp \<lparr>polls = pre @ [SolverDone], solver_ends = True\<rparr> goal seed
            = Some (Inr held)"
  then obtain sp where sp: "Transform (frame mp) seed = Inr sp"
    using assms(1) by (auto simp: getSolutions_def Let_def split: sum.splits)
  note gs = getSolutions_unfold[OF assms(1) sp, of pk _ goal, folded assms(2)]
  define init where "init = \<lparr>solutions = [], failures = Map.empty, constraintFailCnt = 0\<rparr>"
  from h have run: "getSolutions pk mp \<lparr>polls = pre, solver_ends = True\<rparr> goal seed = None"
    by simp
  from getSolutions_running[OF assms(1) sp run, folded assms(2) init_def] obtain st1 where
    r1: "\<And>rest. IK_loop opts (frame mp) sp (fixOvIncrement pk goal sp) seed n (pre @ rest) init =
                 IK_loop opts (frame mp) sp (fixOvIncrement pk goal sp) seed n rest st1"
    by blast
  have dr: "IK_loop opts (frame mp) sp (fixOvIncrement pk goal sp) seed n (pre @ [SolverDone]) init
      = Some (Drained st1)"
    using r1[of "[SolverDone]"] by simp
  have "int (length (solutions init)) < n" using assms(3) by (simp add: init_def)
  from IK_loop_bound[OF assms(3) this, of opts "frame mp" sp "fixOvIncrement pk goal sp" seed
      "pre @ [SolverDone]"]
  have "int (length (solutions st1)) < n" unfolding dr by simp
  moreover have "order_solutions st1 = Inr held"
    using h dr unfolding gs init_def by simp
  ultimately show "int (length held) < n"
    by (simp add: order_solutions_length)
qed

text \<open>
  With \<^verbatim>\<open>MaxSolutions\<close> 2 the third candidate is never collected; after one candidate the
  loop still turns and holds one entry.
\<close>

theorem getSolutions_MaxSolutions_witness:
  "getSolutions ex_package (ex_planner 2 0)
      \<lparr>polls = [Candidate [1, 0], Candidate [0, 2], Candidate [3, 0], SolverDone],
       solver_ends = True\<rparr> 0 [0, 0]
     = Some (Inr [newCostNode [1, 0] (Num 1), newCostNode [0, 2] (Num 4)])
   \<and> int (length [newCostNode [1, 0] (Num 1), newCostNode [0, 2] (Num 4)]) \<le> 2
   \<and> getSolutions ex_package (ex_planner 2 0)
      \<lparr>polls = [Candidate [1, 0]], solver_ends = True\<rparr> 0 [0, 0] = None
   \<and> getSolutions ex_package (ex_planner 2 0)
      \<lparr>polls = [Candidate [1, 0], SolverDone], solver_ends = True\<rparr> 0 [0, 0]
     = Some (Inr [newCostNode [1, 0] (Num 1)])
   \<and> int (length [newCostNode [1, 0] (Num 1)]) < 2"
proof -
  have a: "getSolutions ex_package (ex_planner 2 0)
      \<lparr>polls = [Candidate [1, 0], Candidate [0, 2], Candidate [3, 0], SolverDone],
       solver_ends = True\<rparr> 0 [0, 0]
     = Some (Inr [newCostNode [1, 0] (Num 1), newCostNode [0, 2] (Num 4)])"
    by (simp add: gs_eval)
  have b: "getSolutions ex_package (ex_planner 2 0)
      \<lparr>polls = [Candidate [1, 0]], solver_ends = True\<rparr> 0 [0, 0] = None"
    by (simp add: gs_eval)
  have c: "getSolutions ex_package (ex_planner 2 0)
      \<lparr>polls = [Candidate [1, 0]] @ [SolverDone], solver_ends = True\<rparr> 0 [0, 0]
     = Some (Inr [newCostNode [1, 0] (Num 1)])"
    by (simp add: gs_eval)
  have o: "planOpts (ex_planner 2 0) = Some (ex_opts 2 0)" by (simp add: ex_defs)
  have n: "(2::int) = (if MaxSolutions (ex_opts 2 0) = 0 then defaultSolutionsToSeed ex_package
                 else MaxSolutions (ex_opts 2 0))" by (simp add: ex_defs)
  from getSolutions_MaxSolutions[OF o n, where env =
      "\<lparr>polls = [Candidate [1, 0], Candidate [0, 2], Candidate [3, 0], SolverDone],
       solver_ends = True\<rparr>" and goal = 0 and seed = "[0, 0]"
      and sols = "[newCostNode [1, 0] (Num 1), newCostNode [0, 2] (Num 4)]"
      and pre = "[Candidate [1, 0]]" and held = "[newCostNode [1, 0] (Num 1)]"] a b c
  show ?thesis by simp
qed

text \<open>
  The claim as it was stated fails for \<^verbatim>\<open>MaxSolutions\<close> 0, where the default bound is
  used: two candidates are collected and returned.
\<close>

theorem getSolutions_MaxSolutions_counterexample:
  "MaxSolutions (ex_opts 0 0) = 0
   \<and> getSolutions ex_package (ex_planner 0 0)
        \<lparr>polls = [Candidate [1, 0], Candidate [0, 2], SolverDone], solver_ends = True\<rparr> 0 [0, 0]
       = Some (Inr [newCostNode [1, 0] (Num 1), newCostNode [0, 2] (Num 4)])
   \<and> \<not> int (length [newCostNode [1, 0] (Num 1), newCostNode [0, 2] (Num 4)])
         \<le> MaxSolutions (ex_opts 0 0)"
  by (simp add: gs_eval)

subsection \<open>The caller's context done\<close>

text \<open>
  Claim C5, amended. When the search loop, still turning, finds the caller's context
  done, the candidates collected so far are discarded and the call returns the error of
  the context, not at once but when the solver task has ended: the derived context is
  cancelled and the call waits for the solver's completion, so it returns if the solver
  task ends, and after it has, and it never returns if the solver task does not end.
\<close>

theorem getSolutions_cancelled:
  assumes "planOpts mp = Some opts" and "Transform (frame mp) seed = Inr seedPos"
    and "getSolutions pk mp \<lparr>polls = pre, solver_ends = True\<rparr> goal seed = None"
  shows "getSolutions pk mp \<lparr>polls = pre @ CtxDone # rest, solver_ends = ends\<rparr> goal seed
           = (if ends then Some (Inl ctxErr) else None)"
proof -
  note gs = getSolutions_unfold[OF assms(1,2), of pk _ goal]
  from getSolutions_running[OF assms] obtain st1 where
    r1: "\<And>rest. IK_loop opts (frame mp) seedPos (fixOvIncrement pk goal seedPos) seed
              (if MaxSolutions opts = 0 then defaultSolutionsToSeed pk else MaxSolutions opts)
              (pre @ rest) \<lparr>solutions = [], failures = Map.empty, constraintFailCnt = 0\<rparr>
         = IK_loop opts (frame mp) seedPos (fixOvIncrement pk goal seedPos) seed
              (if MaxSolutions opts = 0 then defaultSolutionsToSeed pk else MaxSolutions opts)
              rest st1"
    by blast
  show ?thesis
    unfolding gs by (simp add: r1)
qed

text \<open>
  One candidate is collected, then the context is done: the error of the context, with
  a solver task that ends.
\<close>

theorem getSolutions_cancelled_witness:
  "getSolutions ex_package (ex_planner 0 0)
      \<lparr>polls = [Candidate [1, 0]], solver_ends = True\<rparr> 0 [0, 0] = None
   \<and> getSolutions ex_package (ex_planner 0 0)
      \<lparr>polls = [Candidate [1, 0], CtxDone, Candidate [0, 2], SolverDone],
       solver_ends = True\<rparr> 0 [0, 0]
     = Some (Inl ctxErr)"
proof -
  have r: "getSolutions ex_package (ex_planner 0 0)
      \<lparr>polls = [Candidate [1, 0]], solver_ends = True\<rparr> 0 [0, 0] = None"
    by (simp add: gs_eval)
  have o: "planOpts (ex_planner 0 0) = Some (ex_opts 0 0)" by (simp add: ex_defs)
  have t: "Transform (frame (ex_planner 0 0)) [0, 0] = Inr 2" by (simp add: ex_defs)
  from getSolutions_cancelled[OF o t r, of "[Candidate [0, 2], SolverDone]" True] r
  show ?thesis by simp
qed

text \<open>
  The claim as it was stated fails for a solver task that does not end when its context
  is cancelled: the loop finds the caller's context done, and the call, waiting for the
  solver's completion, does not return at all.
\<close>

theorem getSolutions_cancelled_counterexample:
  "getSolutions ex_package (ex_planner 0 0)
      \<lparr>polls = [Candidate [1, 0]], solver_ends = False\<rparr> 0 [0, 0] = None
   \<and> getSolutions ex_package (ex_planner 0 0)
      \<lparr>polls = [Candidate [1, 0], CtxDone], solver_ends = False\<rparr> 0 [0, 0] = None
   \<and> getSolutions ex_package (ex_planner 0 0)
      \<lparr>polls = [Candidate [1, 0], CtxDone, Idle, Idle], solver_ends = False\<rparr> 0 [0, 0] = None"
  by (simp add: gs_eval)

subsection \<open>The two errors of an empty result\<close>

text \<open>
  Claim C6. A search ends with no usable solution when the solver completes, the
  context not having been found done, after observations in which every received
  candidate was rejected. The call then fails: with \<^verbatim>\<open>errIKSolve\<close> when no candidate was
  received, and otherwise with the constraint error made of the histogram of the
  rejections, each received candidate counted once under the name of the constraint
  that rejected it, and of the number of received candidates. Conversely, a call that
  fails after the search with an error other than the context's has received rejected
  candidates only, and its error is the one just described.
\<close>

theorem getSolutions_failure_report:
  assumes "planOpts mp = Some opts" and "Transform (frame mp) seed = Inr seedPos"
  shows "(CtxDone \<notin> set pre \<and> SolverDone \<notin> set pre \<and>
          list_all (\<lambda>s. rejection opts (frame mp) seedPos (fixOvIncrement pk goal seedPos) seed s
                          \<noteq> None) (received pre)
          \<longrightarrow>
          getSolutions pk mp \<lparr>polls = pre @ SolverDone # rest, solver_ends = ends\<rparr> goal seed
            = Some (Inl (if received pre = [] then errIKSolve
                         else genIKConstraintErr
                                (tally (List.map_filter
                                   (rejection opts (frame mp) seedPos
                                      (fixOvIncrement pk goal seedPos) seed)
                                   (received pre)))
                                (length (received pre)))))
         \<and>
         (getSolutions pk mp env goal seed = Some (Inl e) \<and> e \<noteq> ctxErr
          \<longrightarrow>
          list_all (\<lambda>s. rejection opts (frame mp) seedPos (fixOvIncrement pk goal seedPos) seed s
                          \<noteq> None) (received (polls env)) \<and>
          e = (if received (polls env) = [] then errIKSolve
               else genIKConstraintErr
                      (tally (List.map_filter
                         (rejection opts (frame mp) seedPos (fixOvIncrement pk goal seedPos) seed)
                         (received (polls env))))
                      (length (received (polls env)))))"
proof (intro conjI impI)
  define n where "n = (if MaxSolutions opts = 0 then defaultSolutionsToSeed pk else MaxSolutions opts)"
  define init where "init = \<lparr>solutions = [], failures = Map.empty, constraintFailCnt = 0\<rparr>"
  define gp where "gp = fixOvIncrement pk goal seedPos"
  note gs = getSolutions_unfold[OF assms(1,2), of pk _ goal, folded n_def init_def gp_def]
  assume h: "CtxDone \<notin> set pre \<and> SolverDone \<notin> set pre \<and>
          list_all (\<lambda>s. rejection opts (frame mp) seedPos (fixOvIncrement pk goal seedPos) seed s
                          \<noteq> None) (received pre)"
  then have a: "CtxDone \<notin> set pre" and b: "SolverDone \<notin> set pre"
    and c: "list_all (\<lambda>s. rejection opts (frame mp) seedPos gp seed s \<noteq> None) (received pre)"
    by (auto simp: gp_def)
  have "getSolutions pk mp \<lparr>polls = pre @ SolverDone # rest, solver_ends = ends\<rparr> goal seed
          = Some (order_solutions
              (init\<lparr>constraintFailCnt := constraintFailCnt init + length (received pre),
                    failures := fold (\<lambda>nm m. incr m nm)
                       (List.map_filter (rejection opts (frame mp) seedPos gp seed) (received pre))
                       (failures init)\<rparr>))"
    unfolding gs by (simp add: IK_loop_all_rejected[OF a b c])
  also have "\<dots> = Some (Inl (if received pre = [] then errIKSolve
                         else genIKConstraintErr
                                (tally (List.map_filter
                                   (rejection opts (frame mp) seedPos gp seed) (received pre)))
                                (length (received pre))))"
    by (simp add: order_solutions_def init_def fold_incr_empty)
  finally show "getSolutions pk mp \<lparr>polls = pre @ SolverDone # rest, solver_ends = ends\<rparr> goal seed
            = Some (Inl (if received pre = [] then errIKSolve
                         else genIKConstraintErr
                                (tally (List.map_filter
                                   (rejection opts (frame mp) seedPos
                                      (fixOvIncrement pk goal seedPos) seed)
                                   (received pre)))
                                (length (received pre))))"
    by (simp add: gp_def)
next
  define n where "n = (if MaxSolutions opts = 0 then defaultSolutionsToSeed pk else MaxSolutions opts)"
  define init where "init = \<lparr>solutions = [], failures = Map.empty, constraintFailCnt = 0\<rparr>"
  define gp where "gp = fixOvIncrement pk goal seedPos"
  note gs = getSolutions_unfold[OF assms(1,2), of pk env goal, folded n_def init_def gp_def]
  assume h: "getSolutions pk mp env goal seed = Some (Inl e) \<and> e \<noteq> ctxErr"
  then obtain ex where
    ex: "IK_loop opts (frame mp) seedPos gp seed n (polls env) init = Some ex"
    unfolding gs by (auto split: option.splits)
  have inv: "case ex of Cancelled \<Rightarrow> True
      | Stopped st' \<Rightarrow> keys_ok (solutions st') \<and> solutions st' \<noteq> []
      | Drained st' \<Rightarrow> keys_ok (solutions st')"
    by (rule IK_loop_exit_inv[OF ex]) (simp add: init_def keys_ok_def)
  from h ex inv obtain st where
    dr: "ex = Drained st" and os: "order_solutions st = Inl e"
    unfolding gs
    by (cases ex) (auto split: if_splits dest: order_solutions_Inl)
  from order_solutions_Inl[OF os] have emp: "solutions st = []"
    and e: "e = (if constraintFailCnt st = 0 then errIKSolve
          else genIKConstraintErr (failures st) (constraintFailCnt st))" by auto
  from IK_loop_drained_empty[OF ex[unfolded dr] emp]
  have all: "list_all (\<lambda>s. rejection opts (frame mp) seedPos gp seed s \<noteq> None) (received (polls env))"
    and cnt: "constraintFailCnt st = length (received (polls env))"
    and fl: "failures st = tally (List.map_filter (rejection opts (frame mp) seedPos gp seed)
                 (received (polls env)))"
    by (auto simp: init_def fold_incr_empty)
  show "list_all (\<lambda>s. rejection opts (frame mp) seedPos (fixOvIncrement pk goal seedPos) seed s
                          \<noteq> None) (received (polls env))"
    using all unfolding gp_def by simp
  show "e = (if received (polls env) = [] then errIKSolve
               else genIKConstraintErr
                      (tally (List.map_filter
                         (rejection opts (frame mp) seedPos (fixOvIncrement pk goal seedPos) seed)
                         (received (polls env))))
                      (length (received (polls env))))"
    using e unfolding cnt fl gp_def by auto
qed

text \<open>
  No candidate before the solver completes: \<^verbatim>\<open>errIKSolve\<close>. Three candidates, one
  rejected by the first check for a joint limit and two by the second check for a
  negative state: the error carries the histogram and the count 3.
\<close>

theorem getSolutions_failure_report_witness:
  "getSolutions ex_package (ex_planner 0 0)
      \<lparr>polls = [Idle, SolverDone], solver_ends = True\<rparr> 0 [0, 0]
     = Some (Inl errIKSolve)
   \<and> getSolutions ex_package (ex_planner 0 0)
      \<lparr>polls = [Candidate [-1, 0], Idle, Candidate [0, 20], Candidate [0, -2], SolverDone],
       solver_ends = True\<rparr> 0 [0, 0]
     = Some (Inl (genIKConstraintErr (tally [''negative'', ''limit'', ''negative'']) 3))
   \<and> tally [''negative'', ''limit'', ''negative''] ''negative'' = Some 2
   \<and> tally [''negative'', ''limit'', ''negative''] ''limit'' = Some 1
   \<and> genIKConstraintErr (tally [''negative'', ''limit'', ''negative'']) 3 \<noteq> ctxErr"
proof -
  let ?pre = "[Candidate [-1, 0], Idle, Candidate [0, 20], Candidate [0, -2]]"
  have o: "planOpts (ex_planner 0 0) = Some (ex_opts 0 0)" by (simp add: ex_defs)
  have t: "Transform (frame (ex_planner 0 0)) [0, 0] = Inr 2" by (simp add: ex_defs)
  note w = getSolutions_failure_report[OF o t, where pk = ex_package and goal = 0
      and rest = "[]" and ends = True]
  have "getSolutions ex_package (ex_planner 0 0)
      \<lparr>polls = [Idle] @ SolverDone # [], solver_ends = True\<rparr> 0 [0, 0]
     = Some (Inl errIKSolve)"
    using w[where pre = "[Idle]"] by simp
  moreover have "getSolutions ex_package (ex_planner 0 0)
      \<lparr>polls = ?pre @ SolverDone # [], solver_ends = True\<rparr> 0 [0, 0]
     = Some (Inl (genIKConstraintErr (tally [''negative'', ''limit'', ''negative'']) 3))"
    using w[where pre = ?pre]
    by (simp add: rejection_def ex_defs List.map_filter_simps)
  moreover from this w[where env = "\<lparr>polls = ?pre @ SolverDone # [], solver_ends = True\<rparr>"
      and e = "genIKConstraintErr (tally [''negative'', ''limit'', ''negative'']) 3"]
  have "list_all (\<lambda>s. rejection (ex_opts 0 0) (frame (ex_planner 0 0)) 2
                    (fixOvIncrement ex_package 0 2) [0, 0] s \<noteq> None) (received (?pre @ [SolverDone]))"
    by simp
  ultimately show ?thesis by (simp add: tally_def)
qed

section \<open>Properties of checkInputs\<close>

text \<open>
  Claim C9. \<^verbatim>\<open>checkInputs\<close> returns false when the forward transform of the frame
  fails. Otherwise, for a planner that has its options, it returns the verdict, and only
  the verdict, of the constraint check of the input whose start and end pose are the
  transformed pose and whose start and end configuration are the given one. Every planner
  that \<^verbatim>\<open>newPlanner\<close> makes has its options.
\<close>

theorem checkInputs_verdict:
  "(Transform (frame mp) inputs = Inl err \<longrightarrow> checkInputs mp inputs = Inr False)
   \<and> (Transform (frame mp) inputs = Inr position \<and> planOpts mp = Some opts \<longrightarrow>
        checkInputs mp inputs =
          Inr (fst (CheckConstraints opts
                 \<lparr>StartPos = Some position, EndPos = Some position,
                  StartInput = inputs, EndInput = inputs, Frame = frame mp\<rparr>)))
   \<and> (newPlanner pk fr seed opt = Inr mp \<longrightarrow> (\<exists>opts. planOpts mp = Some opts))"
  by (auto simp: checkInputs_def newPlanner_def split: prod.splits option.splits)

text \<open>
  One input too few for the transform; a configuration that the constraints accept; one
  that they reject.
\<close>

theorem checkInputs_verdict_witness:
  "newPlanner ex_package ex_frame ex_rand (Some (ex_opts 0 0)) = Inr (ex_planner 0 0)
   \<and> Transform (frame (ex_planner 0 0)) [0] = Inl (External ''wrong number of inputs'')
   \<and> checkInputs (ex_planner 0 0) [0] = Inr False
   \<and> Transform (frame (ex_planner 0 0)) [1, 0] = Inr 2
   \<and> checkInputs (ex_planner 0 0) [1, 0] = Inr True
   \<and> Transform (frame (ex_planner 0 0)) [-1, 0] = Inr 2
   \<and> checkInputs (ex_planner 0 0) [-1, 0] = Inr False"
proof -
  have n: "newPlanner ex_package ex_frame ex_rand (Some (ex_opts 0 0)) = Inr (ex_planner 0 0)"
    by (simp add: newPlanner_def ex_planner_def ex_package_def)
  have t0: "Transform (frame (ex_planner 0 0)) [0] = Inl (External ''wrong number of inputs'')"
    by (simp add: ex_defs)
  have t1: "Transform (frame (ex_planner 0 0)) [1, 0] = Inr 2"
    by (simp add: ex_defs)
  have t2: "Transform (frame (ex_planner 0 0)) [-1, 0] = Inr 2"
    by (simp add: ex_defs)
  from checkInputs_verdict[where pk = ex_package and fr = ex_frame and seed = ex_rand
      and opt = "Some (ex_opts 0 0)" and mp = "ex_planner 0 0"] n
  obtain opts where o: "planOpts (ex_planner 0 0) = Some opts"
    by blast
  then have oo: "opts = ex_opts 0 0" by (simp add: ex_planner_def)
  have "checkInputs (ex_planner 0 0) [0] = Inr False"
    using checkInputs_verdict[of "ex_planner 0 0" "[0]" "External ''wrong number of inputs''"] t0
    by simp
  moreover have "checkInputs (ex_planner 0 0) [1, 0] = Inr True"
    using checkInputs_verdict[of "ex_planner 0 0" "[1, 0]" _ 2 opts] t1 o
    by (simp add: oo ex_opts_def)
  moreover have "checkInputs (ex_planner 0 0) [-1, 0] = Inr False"
    using checkInputs_verdict[of "ex_planner 0 0" "[-1, 0]" _ 2 opts] t2 o
    by (simp add: oo ex_opts_def)
  ultimately show ?thesis using n t0 t1 t2 by simp
qed

section \<open>Properties of smoothPath\<close>

subsection \<open>The draws of one turn\<close>

lemma Intn_range:
  "0 < n \<Longrightarrow> \<exists>v r'. Intn r n = Inr (v, r') \<and> 0 \<le> v \<and> v < n"
  by (simp add: Intn_def)

lemma index_ok: "0 \<le> i \<Longrightarrow> i < int (length xs) \<Longrightarrow> index xs i = Inr (xs ! nat i)"
  by (simp add: index_def)

lemma index_waypoints:
  assumes "0 \<le> k" and "k < 3"
  shows "\<exists>b. index waypoints k = Inr b \<and> b \<in> set waypoints"
proof -
  have l: "length waypoints = 3" by (simp add: waypoints_def)
  have "nat k < length waypoints" using assms l by simp
  then have "waypoints ! nat k \<in> set waypoints" by (rule nth_mem)
  moreover have "index waypoints k = Inr (waypoints ! nat k)"
    using assms l by (simp add: index_def)
  ultimately show ?thesis by blast
qed

text \<open>
  On a path of three nodes or more no draw and no read panics: the first edge index is
  in \<open>[0, len - 2)\<close>, the second one above it and at most \<open>len - 2\<close>.
\<close>

lemma pick_edges_ok:
  assumes "3 \<le> length path"
  shows "\<exists>i j by1 by2 r'.
     pick_edges pk r path =
       Inr (i, j, InterpolateInputs pk (Q (path ! nat i)) (Q (path ! nat (i + 1))) by1,
                  InterpolateInputs pk (Q (path ! nat j)) (Q (path ! nat (j + 1))) by2, r')
     \<and> 0 \<le> i \<and> i < j \<and> j + 1 < int (length path)
     \<and> by1 \<in> set waypoints \<and> by2 \<in> set waypoints"
proof -
  have "0 < int (length path) - 2" using assms by simp
  from Intn_range[OF this, of r] obtain i r1 where
    i: "Intn r (int (length path) - 2) = Inr (i, r1)" "0 \<le> i" "i < int (length path) - 2"
    by blast
  have "0 < (int (length path) - 2) - i" using i by simp
  from Intn_range[OF this, of r1] obtain d r2 where
    d: "Intn r1 ((int (length path) - 2) - i) = Inr (d, r2)" "0 \<le> d"
       "d < (int (length path) - 2) - i"
    by blast
  obtain k1 r3 where k1: "Intn r2 3 = Inr (k1, r3)" "0 \<le> k1" "k1 < 3"
    using Intn_range[of 3 r2] by auto
  obtain k2 r4 where k2: "Intn r3 3 = Inr (k2, r4)" "0 \<le> k2" "k2 < 3"
    using Intn_range[of 3 r3] by auto
  obtain by1 where by1: "index waypoints k1 = Inr by1" "by1 \<in> set waypoints"
    using index_waypoints[OF k1(2,3)] by blast
  obtain by2 where by2: "index waypoints k2 = Inr by2" "by2 \<in> set waypoints"
    using index_waypoints[OF k2(2,3)] by blast
  define j where "j = i + 1 + d"
  have ia: "index path i = Inr (path ! nat i)" using i by (simp add: index_ok)
  have ib: "index path (i + 1) = Inr (path ! nat (i + 1))" using i by (simp add: index_ok)
  have ic: "index path j = Inr (path ! nat j)" using i d by (simp add: index_ok j_def)
  have id: "index path (j + 1) = Inr (path ! nat (j + 1))" using i d by (simp add: index_ok j_def)
  have "pick_edges pk r path =
       Inr (i, j, InterpolateInputs pk (Q (path ! nat i)) (Q (path ! nat (i + 1))) by1,
                  InterpolateInputs pk (Q (path ! nat j)) (Q (path ! nat (j + 1))) by2, r4)"
    unfolding pick_edges_def
    by (simp add: then_do_def i(1) d(1) Let_def j_def[symmetric] ia ib ic id k1(1) k2(1) by1(1) by2(1))
  moreover have "0 \<le> i \<and> i < j \<and> j + 1 < int (length path)"
    using i d by (simp add: j_def)
  ultimately show ?thesis using by1(2) by2(2) by blast
qed

lemma pick_edges_sound:
  assumes "pick_edges pk r path = Inr (i, j, w1, w2, r')"
  shows "0 \<le> i \<and> i < j \<and> j + 1 < int (length path)
     \<and> (\<exists>by1 by2. by1 \<in> set waypoints \<and> by2 \<in> set waypoints
            \<and> w1 = InterpolateInputs pk (Q (path ! nat i)) (Q (path ! nat (i + 1))) by1
            \<and> w2 = InterpolateInputs pk (Q (path ! nat j)) (Q (path ! nat (j + 1))) by2)"
proof (cases "3 \<le> length path")
  case True
  from pick_edges_ok[OF True, of pk r] assms show ?thesis by auto
next
  case False
  then have "Intn r (int (length path) - 2) = Inl Panic" by (simp add: Intn_def)
  then have "pick_edges pk r path = Inl Panic" by (simp add: pick_edges_def then_do_def)
  with assms show ?thesis by simp
qed

subsection \<open>The splice\<close>

lemma checkPath_total:
  "planOpts mp = Some opts \<Longrightarrow> \<exists>ok. checkPath mp a b = Inr ok"
  by (simp add: checkPath_def split: prod.splits)

lemma splice_endpoints:
  assumes "0 \<le> i" and "i < j" and "j + 1 < int (length path)"
  shows "3 \<le> length (splice path i j w1 w2) \<and> hd (splice path i j w1 w2) = hd path
         \<and> last (splice path i j w1 w2) = last path"
proof -
  have p: "path \<noteq> []" using assms by auto
  have t: "take (nat (i + 1)) path \<noteq> []" using assms p by simp
  have "nat (j + 1) < length path" using assms by simp
  then have d: "drop (nat (j + 1)) path \<noteq> []" by simp
  have "hd (splice path i j w1 w2) = hd (take (nat (i + 1)) path)"
    unfolding splice_def using t by simp
  also have "\<dots> = hd path" using assms by (simp add: hd_take)
  finally have h: "hd (splice path i j w1 w2) = hd path" .
  have "last (splice path i j w1 w2) = last (drop (nat (j + 1)) path)"
    unfolding splice_def using d by simp
  also have "\<dots> = last path" using d by (simp add: last_drop)
  finally have l: "last (splice path i j w1 w2) = last path" .
  have "1 \<le> length (drop (nat (j + 1)) path)" using d by (simp add: Suc_leI)
  then have "3 \<le> length (splice path i j w1 w2)"
    unfolding splice_def by simp
  with h l show ?thesis by simp
qed

text \<open>
  Claim C4, amended. When a turn of the smoothing loop has drawn the first edge index
  \<open>i\<close>, the second edge index \<open>j\<close> and the two way points, interpolated on the edges
  from node \<open>i\<close> and from node \<open>j\<close>, and \<^verbatim>\<open>checkPath\<close> accepts the segment between the
  way points, the new path is the nodes of the old path up to and including node \<open>i\<close>,
  then the two way points, then the nodes of the old path from node \<open>j + 1\<close> on: the
  end node of the second edge is kept. The indices satisfy \<open>0 \<le> i < j \<le> len - 2\<close>.
\<close>

theorem shortcut_splice:
  assumes "pick_edges pk r path = Inr (i, j, w1, w2, r')" and "checkPath mp w1 w2 = Inr True"
  shows "shortcut pk mp r path =
           Inr (take (nat i + 1) path @ [basicNode w1, basicNode w2] @ drop (nat j + 1) path, r')
         \<and> 0 \<le> i \<and> i < j \<and> j + 1 < int (length path)
         \<and> (\<exists>by1 by2. by1 \<in> set waypoints \<and> by2 \<in> set waypoints
              \<and> w1 = InterpolateInputs pk (Q (path ! nat i)) (Q (path ! (nat i + 1))) by1
              \<and> w2 = InterpolateInputs pk (Q (path ! nat j)) (Q (path ! (nat j + 1))) by2)"
proof -
  from pick_edges_sound[OF assms(1)] have b: "0 \<le> i" "i < j" "j + 1 < int (length path)"
    and w: "\<exists>by1 by2. by1 \<in> set waypoints \<and> by2 \<in> set waypoints
            \<and> w1 = InterpolateInputs pk (Q (path ! nat i)) (Q (path ! nat (i + 1))) by1
            \<and> w2 = InterpolateInputs pk (Q (path ! nat j)) (Q (path ! nat (j + 1))) by2"
    by auto
  have n: "nat (i + 1) = nat i + 1" "nat (j + 1) = nat j + 1" using b by auto
  have "shortcut pk mp r path = Inr (splice path i j w1 w2, r')"
    by (simp add: shortcut_def then_do_def assms)
  then show ?thesis using b w by (simp add: splice_def n)
qed

text \<open>
  A path of six nodes, the edges 1 and 4 drawn, both way points a quarter along their
  edge: the nodes 2, 3 and 4 are replaced by the two way points, node 5 is kept.
\<close>

theorem shortcut_splice_witness:
  "pick_edges ex_package ex_rand ex_path = Inr (1, 4, [5/4], [17/4], \<lambda>k. 0)
   \<and> checkPath (ex_planner 0 0) [5/4] [17/4] = Inr True
   \<and> shortcut ex_package (ex_planner 0 0) ex_rand ex_path
       = Inr ([basicNode [0], basicNode [1], basicNode [5/4], basicNode [17/4], basicNode [5]],
              \<lambda>k. 0)"
proof -
  have p: "pick_edges ex_package ex_rand ex_path = Inr (1, 4, [5/4], [17/4], \<lambda>k. 0)"
    by (simp add: sp_eval)
  have c: "checkPath (ex_planner 0 0) [5/4] [17/4] = Inr True"
    by (simp add: sp_eval)
  from shortcut_splice[OF p c] p c show ?thesis
    by (simp add: ex_path_def)
qed

text \<open>
  The claim as it was stated takes the old path up again from node \<open>j + 2\<close>. On the
  path of six nodes with the edges 1 and 4 that would leave out node 5, the goal of the
  path; the code keeps it.
\<close>

theorem shortcut_splice_counterexample:
  "pick_edges ex_package ex_rand ex_path = Inr (1, 4, [5/4], [17/4], \<lambda>k. 0)
   \<and> checkPath (ex_planner 0 0) [5/4] [17/4] = Inr True
   \<and> shortcut ex_package (ex_planner 0 0) ex_rand ex_path
       = Inr ([basicNode [0], basicNode [1], basicNode [5/4], basicNode [17/4], basicNode [5]],
              \<lambda>k. 0)
   \<and> [basicNode [0], basicNode [1], basicNode [5/4], basicNode [17/4], basicNode [5]]
       \<noteq> take (1 + 1) ex_path @ [basicNode [5/4], basicNode [17/4]] @ drop (4 + 2) ex_path"
  by (simp add: sp_eval)

subsection \<open>The end points of the path\<close>

lemma shortcut_ok:
  assumes "planOpts mp = Some opts" and "3 \<le> length path"
  shows "\<exists>path' r'. shortcut pk mp r path = Inr (path', r') \<and> 3 \<le> length path'
           \<and> hd path' = hd path \<and> last path' = last path"
proof -
  from pick_edges_ok[OF assms(2), of pk r] obtain i j w1 w2 r' where
    pe: "pick_edges pk r path = Inr (i, j, w1, w2, r')"
    and b: "0 \<le> i" "i < j" "j + 1 < int (length path)"
    by blast
  from checkPath_total[OF assms(1)] obtain ok where ck: "checkPath mp w1 w2 = Inr ok"
    by blast
  have s: "shortcut pk mp r path = Inr (if ok then splice path i j w1 w2 else path, r')"
    by (simp add: shortcut_def then_do_def pe ck)
  show ?thesis
    using s splice_endpoints[OF b, of w1 w2] assms(2) by (cases ok) auto
qed

lemma smooth_loop_ok:
  "planOpts mp = Some opts \<Longrightarrow> 3 \<le> length path \<Longrightarrow>
     \<exists>path' r'. smooth_loop pk mp ctxDone smoothIter i r path = Inr (path', r')
        \<and> 3 \<le> length path' \<and> hd path' = hd path \<and> last path' = last path"
proof (induction pk mp ctxDone smoothIter i r path rule: smooth_loop.induct)
  case (1 pk mp ctxDone smoothIter i r path)
  show ?case
  proof (cases "i < smoothIter \<and> \<not> ctxDone i")
    case False
    then show ?thesis
      using "1.prems"(2) by (subst smooth_loop.simps) auto
  next
    case True
    from shortcut_ok[OF "1.prems", of pk r] obtain p1 r1 where
      s: "shortcut pk mp r path = Inr (p1, r1)" and l: "3 \<le> length p1"
      and e: "hd p1 = hd path" "last p1 = last path"
      by blast
    from "1.IH"[of "(p1, r1)" p1 r1] True s l "1.prems"(1)
    obtain p2 r2 where
      "smooth_loop pk mp ctxDone smoothIter (i + 1) r1 p1 = Inr (p2, r2)"
      "3 \<le> length p2" "hd p2 = hd p1" "last p2 = last p1"
      by auto
    then show ?thesis
      using True s e by (subst smooth_loop.simps) simp
  qed
qed

text \<open>
  Claim C10. \<^verbatim>\<open>smoothPath\<close> returns a path for every input path, planner, random source
  and course of the context, without a panic, and the first and the last node of a
  non-empty input path are the first and the last node of the returned path.
\<close>

theorem smoothPath_endpoints:
  "\<exists>path' r'. smoothPath pk mp ctxDone path = Inr (path', r')
      \<and> (path \<noteq> [] \<longrightarrow> path' \<noteq> [] \<and> hd path' = hd path \<and> last path' = last path)"
proof (cases "planOpts mp")
  case None
  then show ?thesis by (simp add: smoothPath_def)
next
  case (Some opts)
  show ?thesis
  proof (cases "length path \<le> 2")
    case True
    then show ?thesis using Some by (simp add: smoothPath_def)
  next
    case False
    then have "3 \<le> length path" by simp
    from smooth_loop_ok[OF Some this, of pk ctxDone "SmoothIter opts" 0 "randseed mp"]
    show ?thesis using Some False by (auto simp: smoothPath_def)
  qed
qed

text \<open>The path of six nodes smoothed in one turn: the nodes 0 and 5 stay.\<close>

theorem smoothPath_endpoints_witness:
  "ex_path \<noteq> []
   \<and> smoothPath ex_package (ex_planner 0 0) (\<lambda>i. False) ex_path
       = Inr ([basicNode [0], basicNode [1], basicNode [5/4], basicNode [17/4], basicNode [5]],
              \<lambda>k. 0)
   \<and> hd [basicNode [0], basicNode [1], basicNode [5/4], basicNode [17/4], basicNode [5]]
       = hd ex_path
   \<and> last [basicNode [0], basicNode [1], basicNode [5/4], basicNode [17/4], basicNode [5]]
       = last ex_path"
proof -
  have n: "ex_path \<noteq> []" by (simp add: ex_path_def)
  have e: "smoothPath ex_package (ex_planner 0 0) (\<lambda>i. False) ex_path
       = Inr ([basicNode [0], basicNode [1], basicNode [5/4], basicNode [17/4], basicNode [5]],
              \<lambda>k. 0)"
    by (simp add: sp_eval)
  from smoothPath_endpoints[of ex_package "ex_planner 0 0" "\<lambda>i. False" ex_path] e n
  show ?thesis by auto
qed

section \<open>Properties of the waypoint loop\<close>

lemma index_mem: "index xs i = Inr x \<Longrightarrow> x \<in> set xs"
  by (auto simp: index_def split: if_splits)

lemma configs_used_append [simp]:
  "configs_used (xs @ ys) = configs_used xs @ configs_used ys"
  by (simp add: configs_used_def)

lemma configs_used_pair [simp]:
  "configs_used [NewPlanManager i, PlanSingleWaypointCall j opt] = [opt]"
  "configs_used [NewPlanManager i] = []" "configs_used [] = []"
  by (simp_all add: configs_used_def)

lemma replicate_from_set:
  "length xs = n \<Longrightarrow> set xs \<subseteq> {x} \<Longrightarrow> xs = replicate n x"
  by (rule replicate_eqI) auto

text \<open>
  The configs that the loop passes on are configs of the resolved list, and a loop that
  succeeds has passed one for each goal.
\<close>

lemma plan_goals_configs:
  "plan_goals c fs ws sfl opts i goals seedMap steps calls = (calls', r) \<Longrightarrow>
   \<exists>used. configs_used calls' = configs_used calls @ used \<and> set used \<subseteq> set opts
      \<and> (\<forall>steps'. r = Inr steps' \<longrightarrow> length used = length goals)"
proof (induction goals arbitrary: i seedMap steps calls)
  case Nil
  then show ?case by auto
next
  case (Cons goal goals)
  show ?case
  proof (cases "\<exists>sf seed startPose opt sfPlanner resultSlices.
      newSolverFrame c fs sfl (Parent goal) seedMap = Inr sf \<and> length (DoF sf) \<noteq> 0
      \<and> mapToSlice sf seedMap = Inr seed \<and> Transform sf seed = Inr startPose
      \<and> (case ws of None \<Rightarrow> Inr () | Some w \<Rightarrow> WorldStateToProtobuf c w) = Inr ()
      \<and> index opts i = Inr opt \<and> newPlanManager c sf fs i = Inr sfPlanner
      \<and> PlanSingleWaypoint sfPlanner seedMap (Pose goal) ws opt = Inr resultSlices")
    case True
    then obtain sf seed startPose opt sfPlanner resultSlices where h:
      "newSolverFrame c fs sfl (Parent goal) seedMap = Inr sf" "length (DoF sf) \<noteq> 0"
      "mapToSlice sf seedMap = Inr seed" "Transform sf seed = Inr startPose"
      "(case ws of None \<Rightarrow> Inr () | Some w \<Rightarrow> WorldStateToProtobuf c w) = Inr ()"
      "index opts i = Inr opt" "newPlanManager c sf fs i = Inr sfPlanner"
      "PlanSingleWaypoint sfPlanner seedMap (Pose goal) ws opt = Inr resultSlices"
      by blast
    have "plan_goals c fs ws sfl opts (i + 1) goals
            (if resultSlices = [] then seedMap else sliceToMap sf (last resultSlices))
            (steps @ map (sliceToMap sf) resultSlices)
            (calls @ [NewPlanManager i, PlanSingleWaypointCall i opt]) = (calls', r)"
      using Cons.prems h by simp
    from Cons.IH[OF this] obtain used where
      u: "configs_used calls' = configs_used calls @ opt # used" "set used \<subseteq> set opts"
         "\<forall>steps'. r = Inr steps' \<longrightarrow> length used = length goals"
      by auto
    have "opt \<in> set opts" by (rule index_mem[OF h(6)])
    with u show ?thesis by (intro exI[of _ "opt # used"]) auto
  next
    case False
    have "\<exists>e used. r = Inl e \<and> configs_used calls' = configs_used calls @ used
             \<and> set used \<subseteq> set opts"
      using Cons.prems False
      by (auto split: sum.splits if_splits dest: index_mem)
    then show ?thesis by auto
  qed
qed

subsection \<open>A solver frame without degrees of freedom\<close>

text \<open>
  Claim C7. When the solver frame made for a goal has no degree of freedom, planning
  fails with the error of the missing degrees of freedom, and no plan manager, hence no
  IK solver, is made or run for that goal: the loop returns the calls made so far
  unchanged. For the first goal of \<^verbatim>\<open>motionPlanInternal\<close>, and so for the single goal of
  \<^verbatim>\<open>PlanFrameMotion\<close>, no call at all has been made.
\<close>

theorem zero_DoF_aborts:
  "(newSolverFrame c fs sfl (Parent goal) seedMap = Inr sf \<and> length (DoF sf) = 0 \<longrightarrow>
      plan_goals c fs ws sfl opts i (goal # goals) seedMap steps calls = (calls, Inl ErrNoDoF))
   \<and> (fsFrame fs (Name f) = Some solveFrame \<and> TracebackFrame fs solveFrame = Inr sfl
        \<and> resolve_opts (goal # goals) motionConfigs = Inr opts
        \<and> newSolverFrame c fs sfl (Parent goal) seedMap = Inr sf \<and> length (DoF sf) = 0 \<longrightarrow>
      motionPlanInternal c (goal # goals) f seedMap fs ws motionConfigs = ([], Inl ErrNoDoF))
   \<and> (singleFrameSystem c f = Inr fs1 \<and> fsFrame fs1 (Name f) = Some solveFrame1
        \<and> TracebackFrame fs1 solveFrame1 = Inr sfl1
        \<and> newSolverFrame c fs1 sfl1 World [Name f \<mapsto> seed] = Inr sf1
        \<and> length (DoF sf1) = 0 \<longrightarrow>
      PlanFrameMotion c dst f seed planningOpts = ([], Inl ErrNoDoF))"
  by (simp add: motionPlanInternal_def PlanFrameMotion_def resolve_opts_def)

text \<open>
  The base without joints: as the second goal of a loop, as the first goal, and as the
  frame of \<^verbatim>\<open>PlanFrameMotion\<close>.
\<close>

theorem zero_DoF_aborts_witness:
  "plan_goals ex_collab ex_fs None [ex_static] [Map.empty] 1 [ex_goal] [''arm'' \<mapsto> [0, 0]]
      [[''arm'' \<mapsto> [1, 1]]] [NewPlanManager 0, PlanSingleWaypointCall 0 Map.empty]
     = ([NewPlanManager 0, PlanSingleWaypointCall 0 Map.empty], Inl ErrNoDoF)
   \<and> motionPlanInternal ex_collab [ex_goal] ex_static Map.empty ex_fs None [] = ([], Inl ErrNoDoF)
   \<and> PlanFrameMotion ex_collab 2 ex_static [] Map.empty = ([], Inl ErrNoDoF)"
proof -
  have a: "newSolverFrame ex_collab ex_fs [ex_static] (Parent ex_goal) m = Inr (ex_sf [ex_static])
       \<and> length (DoF (ex_sf [ex_static])) = 0" for m
    by (simp add: mp_eval)
  have b: "fsFrame ex_fs (Name ex_static) = Some ex_static
       \<and> TracebackFrame ex_fs ex_static = Inr [ex_static]
       \<and> resolve_opts [ex_goal] ([] :: nat config list) = Inr [Map.empty]"
    by (simp add: mp_eval)
  obtain fs1 where c: "singleFrameSystem ex_collab ex_static = Inr fs1
       \<and> fsFrame fs1 (Name ex_static) = Some ex_static
       \<and> TracebackFrame fs1 ex_static = Inr [ex_static]
       \<and> newSolverFrame ex_collab fs1 [ex_static] World [Name ex_static \<mapsto> []]
           = Inr (ex_sf [ex_static])"
    by (simp add: mp_eval)
  from zero_DoF_aborts[where c = ex_collab and fs = ex_fs and sfl = "[ex_static]"
      and goal = ex_goal and seedMap = "[''arm'' \<mapsto> [0, 0]]" and sf = "ex_sf [ex_static]"
      and ws = None and opts = "[Map.empty]" and i = 1 and goals = "[]"
      and steps = "[[''arm'' \<mapsto> [1, 1]]]"
      and calls = "[NewPlanManager 0, PlanSingleWaypointCall 0 Map.empty]"
      and f = ex_static and solveFrame = ex_static and ?fs1.0 = fs1
      and ?solveFrame1.0 = ex_static and ?sfl1.0 = "[ex_static]" and seed = "[]"
      and ?sf1.0 = "ex_sf [ex_static]" and dst = 2 and planningOpts = Map.empty]
    zero_DoF_aborts[where c = ex_collab and fs = ex_fs and sfl = "[ex_static]"
      and goal = ex_goal and seedMap = Map.empty and sf = "ex_sf [ex_static]"
      and ws = None and opts = "[Map.empty]" and goals = "[]"
      and motionConfigs = "[]" and f = ex_static and solveFrame = ex_static]
    a b c
  show ?thesis by simp
qed

subsection \<open>One motion config for every goal, and the mismatch of the lengths\<close>

text \<open>
  Claim C8, amended, on the entry point \<^verbatim>\<open>PlanWaypoints\<close> of planning with several goals.
  A single supplied motion config is the config of every goal,
  whatever the number of goals: it is the only config ever passed to
  \<^verbatim>\<open>PlanSingleWaypoint\<close>, and a plan that succeeds has passed it once for each goal. If the
  list of goals is not empty, the frame is in the frame system and its traceback
  succeeds, then a number of motion configs that is neither zero, nor one, nor the
  number of goals makes the call fail with the error of the different lengths, before
  any goal is planned.
\<close>

theorem motion_configs_resolution:
  "(PlanWaypoints c goals f seedMap fs ws [cfg] = (calls, r) \<longrightarrow>
      resolve_opts goals [cfg] = Inr (replicate (length goals) cfg)
      \<and> set (configs_used calls) \<subseteq> {cfg}
      \<and> (\<forall>steps. r = Inr steps \<longrightarrow> configs_used calls = replicate (length goals) cfg))
   \<and> (goals \<noteq> [] \<and> fsFrame fs (Name f) = Some solveFrame
        \<and> TracebackFrame fs solveFrame = Inr solveFrameList
        \<and> length motionConfigs \<noteq> 0 \<and> length motionConfigs \<noteq> 1
        \<and> length motionConfigs \<noteq> length goals \<longrightarrow>
      PlanWaypoints c goals f seedMap fs ws motionConfigs = ([], Inl ErrDifferentLengths))"
proof (unfold PlanWaypoints_def, intro conjI impI)
  assume h: "motionPlanInternal c goals f seedMap fs ws [cfg] = (calls, r)"
  show ro: "resolve_opts goals [cfg] = Inr (replicate (length goals) cfg)"
    by (cases goals rule: list.exhaust; cases "tl goals")
       (auto simp: resolve_opts_def map_replicate_const)
  have "\<exists>used. configs_used calls = used \<and> set used \<subseteq> {cfg}
          \<and> (\<forall>steps. r = Inr steps \<longrightarrow> length used = length goals)"
  proof (cases "\<exists>solveFrame sfl. goals \<noteq> [] \<and> fsFrame fs (Name f) = Some solveFrame
                  \<and> TracebackFrame fs solveFrame = Inr sfl")
    case True
    then obtain solveFrame sfl where t: "goals \<noteq> []" "fsFrame fs (Name f) = Some solveFrame"
      "TracebackFrame fs solveFrame = Inr sfl" by blast
    have "plan_goals c fs ws sfl (replicate (length goals) cfg) 0 goals seedMap [] [] = (calls, r)"
      using h t ro by (simp add: motionPlanInternal_def)
    from plan_goals_configs[OF this] show ?thesis by auto
  next
    case False
    then have "calls = [] \<and> (\<exists>e. r = Inl e)"
      using h by (auto simp: motionPlanInternal_def split: option.splits sum.splits if_splits)
    then show ?thesis by auto
  qed
  then have s: "set (configs_used calls) \<subseteq> {cfg}"
    and l: "\<forall>steps. r = Inr steps \<longrightarrow> length (configs_used calls) = length goals"
    by auto
  show "set (configs_used calls) \<subseteq> {cfg}" by (rule s)
  show "\<forall>steps. r = Inr steps \<longrightarrow> configs_used calls = replicate (length goals) cfg"
    using s l by (auto intro: replicate_from_set)
next
  assume "goals \<noteq> [] \<and> fsFrame fs (Name f) = Some solveFrame
        \<and> TracebackFrame fs solveFrame = Inr solveFrameList
        \<and> length motionConfigs \<noteq> 0 \<and> length motionConfigs \<noteq> 1
        \<and> length motionConfigs \<noteq> length goals"
  then show "motionPlanInternal c goals f seedMap fs ws motionConfigs
      = ([], Inl ErrDifferentLengths)"
    by (simp add: motionPlanInternal_def resolve_opts_def)
qed

text \<open>
  Two goals and one config: both calls carry it. Three goals and two configs, the frame
  in the frame system: the error of the different lengths.
\<close>

theorem motion_configs_resolution_witness:
  "PlanWaypoints ex_collab [ex_goal, ex_goal] ex_frame [''arm'' \<mapsto> [0, 0]] ex_fs None
       [[''speed'' \<mapsto> 3]]
     = ([NewPlanManager 0, PlanSingleWaypointCall 0 [''speed'' \<mapsto> 3],
         NewPlanManager 1, PlanSingleWaypointCall 1 [''speed'' \<mapsto> 3]],
        Inr [[''arm'' \<mapsto> [0, 0]], [''arm'' \<mapsto> [1, 1]], [''arm'' \<mapsto> [1, 1]],
             [''arm'' \<mapsto> [2, 2]]])
   \<and> configs_used [NewPlanManager 0, PlanSingleWaypointCall 0 [''speed'' \<mapsto> (3::nat)],
         NewPlanManager 1, PlanSingleWaypointCall 1 [''speed'' \<mapsto> 3]]
       = replicate (length [ex_goal, ex_goal]) [''speed'' \<mapsto> 3]
   \<and> PlanWaypoints ex_collab [ex_goal, ex_goal, ex_goal] ex_frame [''arm'' \<mapsto> [0, 0]]
        ex_fs None [Map.empty, Map.empty]
       = ([], Inl ErrDifferentLengths)"
proof -
  have a: "PlanWaypoints ex_collab [ex_goal, ex_goal] ex_frame [''arm'' \<mapsto> [0, 0]] ex_fs
       None [[''speed'' \<mapsto> 3]]
     = ([NewPlanManager 0, PlanSingleWaypointCall 0 [''speed'' \<mapsto> 3],
         NewPlanManager 1, PlanSingleWaypointCall 1 [''speed'' \<mapsto> 3]],
        Inr [[''arm'' \<mapsto> [0, 0]], [''arm'' \<mapsto> [1, 1]], [''arm'' \<mapsto> [1, 1]],
             [''arm'' \<mapsto> [2, 2]]])"
    by (simp add: mp_eval PlanWaypoints_def)
  have b: "[ex_goal, ex_goal, ex_goal] \<noteq> [] \<and> fsFrame ex_fs (Name ex_frame) = Some ex_frame
        \<and> TracebackFrame ex_fs ex_frame = Inr [ex_frame]
        \<and> length [Map.empty, Map.empty :: nat config] \<noteq> 0
        \<and> length [Map.empty, Map.empty :: nat config] \<noteq> 1
        \<and> length [Map.empty, Map.empty :: nat config] \<noteq> length [ex_goal, ex_goal, ex_goal]"
    by (simp add: mp_eval PlanWaypoints_def)
  from motion_configs_resolution[where c = ex_collab and goals = "[ex_goal, ex_goal]"
      and f = ex_frame and seedMap = "[''arm'' \<mapsto> [0, 0]]" and fs = ex_fs and ws = None
      and cfg = "[''speed'' \<mapsto> 3]"
      and calls = "[NewPlanManager 0, PlanSingleWaypointCall 0 [''speed'' \<mapsto> 3],
         NewPlanManager 1, PlanSingleWaypointCall 1 [''speed'' \<mapsto> 3]]"
      and r = "Inr [[''arm'' \<mapsto> [0, 0]], [''arm'' \<mapsto> [1, 1]], [''arm'' \<mapsto> [1, 1]],
             [''arm'' \<mapsto> [2, 2]]]"] a
  have c: "configs_used [NewPlanManager 0, PlanSingleWaypointCall 0 [''speed'' \<mapsto> (3::nat)],
         NewPlanManager 1, PlanSingleWaypointCall 1 [''speed'' \<mapsto> 3]]
       = replicate (length [ex_goal, ex_goal]) [''speed'' \<mapsto> 3]"
    by blast
  from motion_configs_resolution[where c = ex_collab and goals = "[ex_goal, ex_goal, ex_goal]"
      and f = ex_frame and seedMap = "[''arm'' \<mapsto> [0, 0]]" and fs = ex_fs and ws = None
      and motionConfigs = "[Map.empty, Map.empty]" and solveFrame = ex_frame
      and solveFrameList = "[ex_frame]"] b
  have d: "PlanWaypoints ex_collab [ex_goal, ex_goal, ex_goal] ex_frame
        [''arm'' \<mapsto> [0, 0]] ex_fs None [Map.empty, Map.empty]
       = ([], Inl ErrDifferentLengths)"
    by blast
  from a c d show ?thesis by blast
qed

text \<open>
  The second part of the claim as it was stated fails where an earlier check of the call
  fails: with three goals and two configs for a frame that is not in the frame system
  the error is that of the missing frame, and with two configs and no goal it is that of
  the missing destinations.
\<close>

theorem motion_configs_resolution_counterexample:
  "length [Map.empty, Map.empty :: nat config] \<noteq> 0
   \<and> length [Map.empty, Map.empty :: nat config] \<noteq> 1
   \<and> length [Map.empty, Map.empty :: nat config] \<noteq> length [ex_goal, ex_goal, ex_goal]
   \<and> PlanWaypoints ex_collab [ex_goal, ex_goal, ex_goal]
        \<lparr>Name = ''gripper'', DoF = [], Transform = (\<lambda>inputs. Inr 0)\<rparr>
        [''arm'' \<mapsto> [0, 0]] ex_fs None [Map.empty, Map.empty]
       = ([], Inl (FrameMissingError ''gripper''))
   \<and> FrameMissingError ''gripper'' \<noteq> ErrDifferentLengths
   \<and> PlanWaypoints ex_collab [] ex_frame
        [''arm'' \<mapsto> [0, 0]] ex_fs None [Map.empty, Map.empty]
       = ([], Inl ErrNoDestinations)"
  by (simp add: mp_eval PlanWaypoints_def)

end
